theory Spec2Isabelle
  imports Complex_Main "HOL-Library.Log_Nat"
begin

section \<open>Python values used by \<^verbatim>\<open>gui-app.py\<close>\<close>

text \<open>
  A Python \<^verbatim>\<open>str\<close> is a sequence of Unicode code points, lone surrogates included, so
  the recognised text of a word is a list of code points. File-system paths and log
  messages are plain byte strings.
\<close>

type_synonym pystr = "nat list"

definition ascii :: "string \<Rightarrow> pystr" where
  "ascii s = map of_char s"

datatype exc_class =
  FileNotFoundError | KeyError | IndexError | ValueError | OverflowError | LibraryError

text \<open>An exception object: its class and the text that \<^verbatim>\<open>str(e)\<close> gives.\<close>

datatype pyexc = PyExc exc_class string

fun str_exc :: "pyexc \<Rightarrow> string" where
  "str_exc (PyExc c m) = m"

datatype log_level = INFO | WARNING | ERROR

type_synonym log_entry = "log_level \<times> string"

subsection \<open>\<^verbatim>\<open>str.strip()\<close> and \<^verbatim>\<open>encode('utf-8', 'ignore').decode('utf-8')\<close>\<close>

text \<open>The code points that CPython's \<^verbatim>\<open>str.strip()\<close> removes.\<close>

definition py_isspace :: "nat \<Rightarrow> bool" where
  "py_isspace c =
     ((0x09 \<le> c \<and> c \<le> 0x0D) \<or> (0x1C \<le> c \<and> c \<le> 0x20) \<or> c = 0x85 \<or> c = 0xA0 \<or>
      c = 0x1680 \<or> (0x2000 \<le> c \<and> c \<le> 0x200A) \<or> c = 0x2028 \<or> c = 0x2029 \<or>
      c = 0x202F \<or> c = 0x205F \<or> c = 0x3000)"

definition py_strip :: "pystr \<Rightarrow> pystr" where
  "py_strip s = rev (dropWhile py_isspace (rev (dropWhile py_isspace s)))"

text \<open>
  UTF-8 cannot encode a surrogate code point; with the \<^verbatim>\<open>'ignore'\<close> handler the encoder
  drops it, and decoding the bytes gives every other code point back.
\<close>

definition is_surrogate :: "nat \<Rightarrow> bool" where
  "is_surrogate c = (0xD800 \<le> c \<and> c \<le> 0xDFFF)"

definition utf8_ignore :: "pystr \<Rightarrow> pystr" where
  "utf8_ignore s = filter (\<lambda>c. \<not> is_surrogate c) s"

subsection \<open>\<^verbatim>\<open>float(...)\<close> and the comparison of a float with an int\<close>

text \<open>
  A finite double is the rational number it denotes. Python compares a float with an
  int by their exact values.
\<close>

datatype pyfloat = FFin rat | FPosInf | FNegInf | FNaN

fun float_lt_int :: "pyfloat \<Rightarrow> int \<Rightarrow> bool" where
  "float_lt_int (FFin q) t = (q < of_int t)"
| "float_lt_int FPosInf t = False"
| "float_lt_int FNegInf t = True"
| "float_lt_int FNaN t = False"

text \<open>
  \<^verbatim>\<open>float(n)\<close> for an int: exact below \<open>2 ^ 53\<close>, otherwise rounded to 53 significant bits,
  ties to even, and an OverflowError beyond the range of a double.
\<close>

definition float_of_int :: "int \<Rightarrow> pyexc + pyfloat" where
  "float_of_int n =
     (let a = \<bar>n\<bar> in
      if a < 2 ^ 53 then Inr (FFin (of_int n))
      else
        let e = nat (bitlen a - 53);
            q = a div 2 ^ e;
            r = a mod 2 ^ e;
            h = 2 ^ (e - 1);
            q' = (if h < r \<or> (r = h \<and> odd q) then q + 1 else q);
            v = q' * 2 ^ e
        in if 2 ^ 1024 \<le> v
           then Inl (PyExc OverflowError ''int too large to convert to float'')
           else Inr (FFin (of_int (sgn n * v))))"

text \<open>
  A cell of the \<^verbatim>\<open>conf\<close> column as pytesseract delivers it: an int, a float or a string.
  Parsing a string is Python's own \<^verbatim>\<open>float(str)\<close>, taken as a parameter: it gives the
  float or the ValueError it raises.
\<close>

datatype conf_cell = ConfInt int | ConfFloat pyfloat | ConfStr pystr

fun py_float :: "(pystr \<Rightarrow> pyexc + pyfloat) \<Rightarrow> conf_cell \<Rightarrow> pyexc + pyfloat" where
  "py_float fs (ConfInt n) = float_of_int n"
| "py_float fs (ConfFloat f) = Inr f"
| "py_float fs (ConfStr s) = fs s"

section \<open>The recognition output and the canvas\<close>

text \<open>
  \<^verbatim>\<open>ocr_data\<close> is a dict from column name to a list with one entry per row. A column
  that is \<open>None\<close> is a key the dict does not have.
\<close>

record ocr_data =
  text_col :: "pystr list option"
  conf_col :: "conf_cell list option"
  block_num_col :: "int list option"
  left_col :: "int list option"
  top_col :: "int list option"
  width_col :: "int list option"
  height_col :: "int list option"

definition key_error :: "string \<Rightarrow> pyexc" where
  "key_error k = PyExc KeyError ([CHR 0x27] @ k @ [CHR 0x27])"

definition index_error :: pyexc where
  "index_error = PyExc IndexError ''list index out of range''"

text \<open>\<^verbatim>\<open>ocr_data[key][i]\<close>: KeyError for a missing key, IndexError past the end.\<close>

definition col_get :: "string \<Rightarrow> 'a list option \<Rightarrow> nat \<Rightarrow> pyexc + 'a" where
  "col_get k col i =
     (case col of
        None \<Rightarrow> Inl (key_error k)
      | Some xs \<Rightarrow> if i < length xs then Inr (xs ! i) else Inl index_error)"

text \<open>\<^verbatim>\<open>len(ocr_data[key])\<close>.\<close>

definition col_len :: "string \<Rightarrow> 'a list option \<Rightarrow> pyexc + nat" where
  "col_len k col = (case col of None \<Rightarrow> Inl (key_error k) | Some xs \<Rightarrow> Inr (length xs))"

text \<open>The dict appended to \<^verbatim>\<open>text_block\<close> for one word.\<close>

record item =
  item_text :: pystr
  item_x :: int
  item_y :: int
  item_width :: int
  item_height :: int

record draw_cmd =
  cmd_x :: int
  cmd_y :: int
  cmd_text :: pystr

text \<open>
  The reportlab canvas, as far as the program uses it: page size, current font, fill
  colour (red, green, blue, alpha) and the \<^verbatim>\<open>drawString\<close> calls made so far.
\<close>

record canvas =
  pagesize :: "int \<times> int"
  cv_font :: "string \<times> nat"
  cv_fill :: "int \<times> int \<times> int \<times> int"
  cmds :: "draw_cmd list"

definition canvas_new :: "int \<times> int \<Rightarrow> canvas" where
  "canvas_new sz = \<lparr>pagesize = sz, cv_font = (''Helvetica'', 12), cv_fill = (0, 0, 0, 1), cmds = []\<rparr>"

definition standardFonts :: "string list" where
  "standardFonts =
     [''Courier'', ''Courier-Bold'', ''Courier-Oblique'', ''Courier-BoldOblique'',
      ''Helvetica'', ''Helvetica-Bold'', ''Helvetica-Oblique'', ''Helvetica-BoldOblique'',
      ''Times-Roman'', ''Times-Bold'', ''Times-Italic'', ''Times-BoldItalic'',
      ''Symbol'', ''ZapfDingbats'']"

text \<open>
  \<^verbatim>\<open>c.setFont(name, pt)\<close> raises for a font that is neither built in nor registered.
\<close>

definition setFont :: "string list \<Rightarrow> canvas \<Rightarrow> string \<Rightarrow> nat \<Rightarrow> pyexc + canvas" where
  "setFont registered c name pt =
     (if name \<in> set standardFonts \<or> name \<in> set registered
      then Inr (c\<lparr>cv_font := (name, pt)\<rparr>)
      else Inl (PyExc LibraryError ([CHR 0x27] @ name @ [CHR 0x27])))"

definition setFillColor :: "canvas \<Rightarrow> int \<times> int \<times> int \<times> int \<Rightarrow> canvas" where
  "setFillColor c col = c\<lparr>cv_fill := col\<rparr>"

text \<open>
  \<^verbatim>\<open>canvas_obj.drawString(x, y, text)\<close>. Whether reportlab raises for this font, position
  and text is a parameter \<open>df\<close>: the exception raised, or \<open>None\<close>.
\<close>

definition drawString ::
  "(string \<Rightarrow> int \<Rightarrow> int \<Rightarrow> pystr \<Rightarrow> pyexc option) \<Rightarrow> canvas \<Rightarrow> int \<Rightarrow> int \<Rightarrow> pystr \<Rightarrow> pyexc + canvas"
where
  "drawString df c x y t =
     (case df (fst (cv_font c)) x y t of
        Some e \<Rightarrow> Inl e
      | None \<Rightarrow> Inr (c\<lparr>cmds := cmds c @ [\<lparr>cmd_x = x, cmd_y = y, cmd_text = t\<rparr>]\<rparr>))"

section \<open>\<^verbatim>\<open>_write_text_block\<close>\<close>

text \<open>
  The body of the loop over \<^verbatim>\<open>text_block\<close> (lines 179 to 194), on the canvas and the
  records the logger has taken so far.
\<close>

definition write_item ::
  "(string \<Rightarrow> int \<Rightarrow> int \<Rightarrow> pystr \<Rightarrow> pyexc option) \<Rightarrow> int \<times> int \<Rightarrow> canvas \<times> log_entry list \<Rightarrow> item
     \<Rightarrow> canvas \<times> log_entry list"
where
  "write_item df sz st it =
     (let t = py_strip (item_text it) in
      if t = [] then st
      else
        let x = item_x it;
            y = snd sz - item_y it - item_height it;
            cleaned_text = utf8_ignore t
        in case drawString df (fst st) x y cleaned_text of
             Inr c' \<Rightarrow> (c', snd st)
           | Inl e \<Rightarrow> (fst st, snd st @ [(WARNING, ''Failed to write text: '' @ str_exc e)]))"

fun write_text_block ::
  "(string \<Rightarrow> int \<Rightarrow> int \<Rightarrow> pystr \<Rightarrow> pyexc option) \<Rightarrow> canvas \<times> log_entry list \<Rightarrow> item list \<Rightarrow> int \<times> int
     \<Rightarrow> canvas \<times> log_entry list"
where
  "write_text_block df st [] sz = st"
| "write_text_block df st (it # rest) sz = write_text_block df (write_item df sz st it) rest sz"

section \<open>\<^verbatim>\<open>_create_text_layer\<close>\<close>

text \<open>
  The object \<^verbatim>\<open>self\<close>: the three attributes that \<^verbatim>\<open>__init__\<close> sets and later steps read.
\<close>

record processor =
  font_name :: string
  conf_threshold :: int
  dpi :: nat

text \<open>
  The variables of the loop of lines 138 to 160: the canvas, the logger's records, and the
  two locals. \<open>flushes\<close> is a trace added for the proofs: the argument of every call
  of \<^verbatim>\<open>_write_text_block\<close>, in call order. Nothing reads it.
\<close>

record lstate =
  ls_canvas :: canvas
  ls_log :: "log_entry list"
  last_block_num :: int
  text_block :: "item list"
  flushes :: "item list list"

text \<open>\<^verbatim>\<open>if text_block: self._write_text_block(c, text_block, size)\<close>\<close>

definition flush ::
  "(string \<Rightarrow> int \<Rightarrow> int \<Rightarrow> pystr \<Rightarrow> pyexc option) \<Rightarrow> int \<times> int \<Rightarrow> lstate \<Rightarrow> lstate"
where
  "flush df sz s =
     (if text_block s \<noteq> []
      then (let r = write_text_block df (ls_canvas s, ls_log s) (text_block s) sz
            in s\<lparr>ls_canvas := fst r, ls_log := snd r, flushes := flushes s @ [text_block s]\<rparr>)
      else s)"

text \<open>The dict literal of lines 154 to 160, its entries evaluated in the order written.\<close>

definition row_item :: "ocr_data \<Rightarrow> nat \<Rightarrow> pyexc + item" where
  "row_item d i =
     (case col_get ''text'' (text_col d) i of
        Inl e \<Rightarrow> Inl e
      | Inr t \<Rightarrow>
     (case col_get ''left'' (left_col d) i of
        Inl e \<Rightarrow> Inl e
      | Inr x \<Rightarrow>
     (case col_get ''top'' (top_col d) i of
        Inl e \<Rightarrow> Inl e
      | Inr y \<Rightarrow>
     (case col_get ''width'' (width_col d) i of
        Inl e \<Rightarrow> Inl e
      | Inr w \<Rightarrow>
     (case col_get ''height'' (height_col d) i of
        Inl e \<Rightarrow> Inl e
      | Inr h \<Rightarrow>
          Inr \<lparr>item_text = t, item_x = x, item_y = y, item_width = w, item_height = h\<rparr>)))))"

text \<open>
  One iteration of the loop, for index \<open>i\<close>. The result is the exception that leaves
  the loop, if any, and the state at that point. \<open>fs\<close> is Python's \<^verbatim>\<open>float\<close> on a string.
\<close>

definition layer_step ::
  "(pystr \<Rightarrow> pyexc + pyfloat) \<Rightarrow> (string \<Rightarrow> int \<Rightarrow> int \<Rightarrow> pystr \<Rightarrow> pyexc option) \<Rightarrow> processor \<Rightarrow>
     ocr_data \<Rightarrow> int \<times> int \<Rightarrow> nat \<Rightarrow> lstate \<Rightarrow> pyexc option \<times> lstate"
where
  "layer_step fs df self d sz i s =
     (case col_get ''conf'' (conf_col d) i of
        Inl e \<Rightarrow> (Some e, s)
      | Inr cc \<Rightarrow>
     (case py_float fs cc of
        Inl e \<Rightarrow> (Some e, s)
      | Inr cf \<Rightarrow>
     if float_lt_int cf (conf_threshold self) then (None, s)
     else
     (case col_get ''block_num'' (block_num_col d) i of
        Inl e \<Rightarrow> (Some e, s)
      | Inr b \<Rightarrow>
     let s1 = (if b \<noteq> last_block_num s
               then (flush df sz s)\<lparr>text_block := [], last_block_num := b\<rparr>
               else s)
     in
     (case row_item d i of
        Inl e \<Rightarrow> (Some e, s1)
      | Inr it \<Rightarrow> (None, s1\<lparr>text_block := text_block s1 @ [it]\<rparr>)))))"

fun layer_loop ::
  "(pystr \<Rightarrow> pyexc + pyfloat) \<Rightarrow> (string \<Rightarrow> int \<Rightarrow> int \<Rightarrow> pystr \<Rightarrow> pyexc option) \<Rightarrow> processor \<Rightarrow>
     ocr_data \<Rightarrow> int \<times> int \<Rightarrow> nat list \<Rightarrow> lstate \<Rightarrow> pyexc option \<times> lstate"
where
  "layer_loop fs df self d sz [] s = (None, s)"
| "layer_loop fs df self d sz (i # rest) s =
     (case layer_step fs df self d sz i s of
        (Some e, s') \<Rightarrow> (Some e, s')
      | (None, s') \<Rightarrow> layer_loop fs df self d sz rest s')"

text \<open>
  The whole of \<^verbatim>\<open>_create_text_layer\<close> up to \<^verbatim>\<open>c.save()\<close>, with the final state of its
  variables. \<open>registered\<close> is the fonts registered with reportlab and \<open>lg\<close> the logger's
  records on entry.
\<close>

definition text_layer_run ::
  "(pystr \<Rightarrow> pyexc + pyfloat) \<Rightarrow> (string \<Rightarrow> int \<Rightarrow> int \<Rightarrow> pystr \<Rightarrow> pyexc option) \<Rightarrow> processor \<Rightarrow>
     string list \<Rightarrow> log_entry list \<Rightarrow> ocr_data \<Rightarrow> int \<times> int \<Rightarrow> pyexc option \<times> lstate"
where
  "text_layer_run fs df self registered lg d sz =
     (let s0 = \<lparr>ls_canvas = canvas_new sz, ls_log = lg, last_block_num = - 1,
                 text_block = [], flushes = []\<rparr>
      in case setFont registered (canvas_new sz) (font_name self) 8 of
           Inl e \<Rightarrow> (Some e, s0)
         | Inr c1 \<Rightarrow>
             let s1 = s0\<lparr>ls_canvas := setFillColor c1 (0, 0, 0, 0)\<rparr>
             in case col_len ''text'' (text_col d) of
                  Inl e \<Rightarrow> (Some e, s1)
                | Inr n \<Rightarrow>
                    (case layer_loop fs df self d sz [0..<n] s1 of
                       (Some e, s2) \<Rightarrow> (Some e, s2)
                     | (None, s2) \<Rightarrow> (None, flush df sz s2)))"

text \<open>
  What the caller sees: the saved page (the canvas stands for its bytes) or the
  exception, and the logger's records.
\<close>

definition create_text_layer ::
  "(pystr \<Rightarrow> pyexc + pyfloat) \<Rightarrow> (string \<Rightarrow> int \<Rightarrow> int \<Rightarrow> pystr \<Rightarrow> pyexc option) \<Rightarrow> processor \<Rightarrow>
     string list \<Rightarrow> log_entry list \<Rightarrow> ocr_data \<Rightarrow> int \<times> int \<Rightarrow> (pyexc + canvas) \<times> log_entry list"
where
  "create_text_layer fs df self registered lg d sz =
     (case text_layer_run fs df self registered lg d sz of
        (Some e, s) \<Rightarrow> (Inl e, ls_log s)
      | (None, s) \<Rightarrow> (Inr (ls_canvas s), ls_log s))"

section \<open>The processor, its surroundings and \<^verbatim>\<open>process_pdf\<close>\<close>

text \<open>
  What a file holds: something the program never reads through this model, the empty or
  partial content of a file opened for writing, or a PDF written by \<^verbatim>\<open>writer.write\<close>.
\<close>

datatype 'pg file_content = Opaque | Truncated | PdfDoc "'pg list"

text \<open>
  The mutable surroundings: the file system, the fonts registered with reportlab, the
  records taken by the logger and pytesseract's command. \<open>opened_wb\<close> is a trace added for
  the proofs: the paths opened for writing, in order.
\<close>

record 'pg world =
  files :: "string \<Rightarrow> 'pg file_content option"
  dirs :: "string set"
  fonts :: "string list"
  logged :: "log_entry list"
  tesseract_cmd :: string
  opened_wb :: "string list"

text \<open>
  The libraries the program calls, as parameters: each gives its result or the exception
  it raises. \<open>merge_page\<close> stands for lines 101 to 103 after the page lookup: parsing the
  saved layer and merging it into the original page.
\<close>

record ('img, 'pg) env =
  module_dir :: string
  ttfont_load :: "string \<Rightarrow> string \<Rightarrow> pyexc option"
  mkdir_error :: "string \<Rightarrow> pyexc option"
  convert_from_path :: "string \<Rightarrow> nat \<Rightarrow> pyexc + 'img list"
  pdf_reader :: "string \<Rightarrow> pyexc + 'pg list"
  image_to_data :: "'img \<Rightarrow> pyexc + ocr_data"
  image_size :: "'img \<Rightarrow> int \<times> int"
  merge_page :: "'pg \<Rightarrow> canvas \<Rightarrow> pyexc + 'pg"
  open_error :: "string \<Rightarrow> pyexc option"
  write_error :: "'pg list \<Rightarrow> pyexc option"
  float_str :: "pystr \<Rightarrow> pyexc + pyfloat"
  draw_error :: "string \<Rightarrow> int \<Rightarrow> int \<Rightarrow> pystr \<Rightarrow> pyexc option"

text \<open>\<^verbatim>\<open>os.path.exists\<close> and \<^verbatim>\<open>Path.exists\<close>.\<close>

definition path_exists :: "'pg world \<Rightarrow> string \<Rightarrow> bool" where
  "path_exists w p = (files w p \<noteq> None \<or> p \<in> dirs w)"

definition log_to :: "log_level \<Rightarrow> string \<Rightarrow> 'pg world \<Rightarrow> 'pg world" where
  "log_to lvl msg w = w\<lparr>logged := logged w @ [(lvl, msg)]\<rparr>"

text \<open>Decimal digits of a number, for the f-strings.\<close>

fun str_nat :: "nat \<Rightarrow> string" where
  "str_nat n =
     (if n < 10 then [''0123456789'' ! n]
      else str_nat (n div 10) @ [''0123456789'' ! (n mod 10)])"

declare str_nat.simps [simp del]

subsection \<open>\<^verbatim>\<open>__init__\<close> and \<^verbatim>\<open>_setup_font\<close>\<close>

definition font_file :: "('img, 'pg) env \<Rightarrow> string" where
  "font_file env = module_dir env @ ''/fonts'' @ ''/'' @ ''0xProto-Regular'' @ ''.ttf''"

text \<open>
  \<^verbatim>\<open>_setup_font\<close>: the body of the \<^verbatim>\<open>try\<close> gives unit or the exception raised in it; the
  handler catches every exception. The result is \<^verbatim>\<open>self.font_name\<close>.
\<close>

definition setup_font :: "('img, 'pg) env \<Rightarrow> 'pg world \<Rightarrow> string \<times> 'pg world" where
  "setup_font env w =
     (let name = ''0xProto-Regular'';
          font_path = font_file env
      in case (if path_exists w font_path
               then (case ttfont_load env name font_path of
                       Some e \<Rightarrow> Inl e
                     | None \<Rightarrow> Inr ())
               else Inl (PyExc FileNotFoundError (''Font file not found: '' @ font_path))) of
           Inr u \<Rightarrow>
             (name, log_to INFO (''Registered custom font: '' @ name)
                      (w\<lparr>fonts := fonts w @ [name]\<rparr>))
         | Inl e \<Rightarrow>
             (''Helvetica'',
              log_to WARNING (''Font registration failed: '' @ str_exc e @ ''. Using Helvetica.'') w))"

text \<open>\<^verbatim>\<open>PdfOcrProcessor(tesseract_path)\<close>: the new object and the surroundings after it.\<close>

definition PdfOcrProcessor ::
  "('img, 'pg) env \<Rightarrow> string option \<Rightarrow> 'pg world \<Rightarrow> processor \<times> 'pg world"
where
  "PdfOcrProcessor env tesseract_path w =
     (let w1 = (case tesseract_path of
                  None \<Rightarrow> w
                | Some p \<Rightarrow> if p \<noteq> [] then w\<lparr>tesseract_cmd := p\<rparr> else w);
          r = setup_font env w1
      in (\<lparr>font_name = fst r, conf_threshold = 60, dpi = 300\<rparr>, snd r))"

subsection \<open>The standard library calls of \<^verbatim>\<open>process_pdf\<close>\<close>

text \<open>\<^verbatim>\<open>os.path.dirname\<close> on a POSIX path.\<close>

definition dirname :: "string \<Rightarrow> string" where
  "dirname p =
     (let head = rev (dropWhile (\<lambda>c. c \<noteq> CHR ''/'') (rev p))
      in if dropWhile (\<lambda>c. c = CHR ''/'') head \<noteq> []
         then rev (dropWhile (\<lambda>c. c = CHR ''/'') (rev head))
         else head)"

text \<open>The proper ancestors of a directory path, which \<^verbatim>\<open>os.makedirs\<close> creates with it.\<close>

definition ancestors :: "string \<Rightarrow> string list" where
  "ancestors p =
     map (\<lambda>k. take k p)
       (filter (\<lambda>k. p ! k = CHR ''/'' \<and> p ! (k - 1) \<noteq> CHR ''/'') [1..<length p])"

text \<open>
  \<^verbatim>\<open>os.makedirs(name, exist_ok=True)\<close>. The empty path is the case of an output path with
  no directory part: \<^verbatim>\<open>mkdir('')\<close> raises FileNotFoundError, and \<^verbatim>\<open>exist_ok\<close> does not
  cover it, since the empty path is not a directory. An existing directory is left as it
  is. Otherwise the directory and its missing ancestors are created, unless the operating
  system refuses (\<open>mkdir_error\<close>).
\<close>

definition makedirs :: "('img, 'pg) env \<Rightarrow> 'pg world \<Rightarrow> string \<Rightarrow> pyexc option \<times> 'pg world" where
  "makedirs env w name =
     (if name = []
      then (Some (PyExc FileNotFoundError
                   (''[Errno 2] No such file or directory: '' @ [CHR 0x27, CHR 0x27])), w)
      else if name \<in> dirs w then (None, w)
      else case mkdir_error env name of
             Some e \<Rightarrow> (Some e, w)
           | None \<Rightarrow> (None, w\<lparr>dirs := dirs w \<union> set (ancestors name) \<union> {name}\<rparr>))"

text \<open>
  \<^verbatim>\<open>open(output_path, 'wb')\<close>: on success the file exists and is empty from then on.
\<close>

definition open_wb :: "('img, 'pg) env \<Rightarrow> 'pg world \<Rightarrow> string \<Rightarrow> pyexc option \<times> 'pg world" where
  "open_wb env w p =
     (case open_error env p of
        Some e \<Rightarrow> (Some e, w)
      | None \<Rightarrow> (None, w\<lparr>files := (files w)(p \<mapsto> Truncated), opened_wb := opened_wb w @ [p]\<rparr>))"

subsection \<open>The loop over the pages\<close>

text \<open>
  One iteration of lines 87 to 106 for page \<open>i\<close> and its image: the exception that leaves
  the loop, if any, with the pages added to the writer and the surroundings.
\<close>

definition page_step ::
  "('img, 'pg) env \<Rightarrow> processor \<Rightarrow> 'pg list \<Rightarrow> nat \<Rightarrow> nat \<times> 'img \<Rightarrow> 'pg list \<times> 'pg world
     \<Rightarrow> pyexc option \<times> 'pg list \<times> 'pg world"
where
  "page_step env self pages n ii st =
     (let i = fst ii; image = snd ii; writer = fst st; w = snd st
      in case image_to_data env image of
           Inl e \<Rightarrow> (Some e, writer, w)
         | Inr ocr_data \<Rightarrow>
             let r = create_text_layer (float_str env) (draw_error env) self (fonts w) (logged w)
                       ocr_data (image_size env image);
                 w1 = w\<lparr>logged := snd r\<rparr>
             in case fst r of
                  Inl e \<Rightarrow> (Some e, writer, w1)
                | Inr text_layer \<Rightarrow>
                    if \<not> i < length pages
                    then (Some (PyExc IndexError ''sequence index out of range''), writer, w1)
                    else
                      (case merge_page env (pages ! i) text_layer of
                         Inl e \<Rightarrow> (Some e, writer, w1)
                       | Inr original_page \<Rightarrow>
                           (None, writer @ [original_page],
                            log_to INFO (''Processed page '' @ str_nat (i + 1) @ ''/'' @ str_nat n) w1)))"

fun page_loop ::
  "('img, 'pg) env \<Rightarrow> processor \<Rightarrow> 'pg list \<Rightarrow> nat \<Rightarrow> (nat \<times> 'img) list \<Rightarrow> 'pg list \<times> 'pg world
     \<Rightarrow> pyexc option \<times> 'pg list \<times> 'pg world"
where
  "page_loop env self pages n [] st = (None, st)"
| "page_loop env self pages n (ii # rest) st =
     (case page_step env self pages n ii st of
        (Some e, st') \<Rightarrow> (Some e, st')
      | (None, st') \<Rightarrow> page_loop env self pages n rest st')"

text \<open>\<^verbatim>\<open>enumerate(images)\<close>\<close>

definition enumerate_list :: "'a list \<Rightarrow> (nat \<times> 'a) list" where
  "enumerate_list xs = zip [0..<length xs] xs"

subsection \<open>\<^verbatim>\<open>process_pdf\<close>\<close>

text \<open>
  The body of the \<^verbatim>\<open>try\<close> of lines 70 to 113: the exception that leaves it, if any, and
  the surroundings at that point.
\<close>

definition process_pdf_try ::
  "('img, 'pg) env \<Rightarrow> processor \<Rightarrow> 'pg world \<Rightarrow> string \<Rightarrow> string \<Rightarrow> pyexc option \<times> 'pg world"
where
  "process_pdf_try env self w input_path output_path =
     (if \<not> path_exists w input_path
      then (Some (PyExc FileNotFoundError (''Input file not found: '' @ input_path)), w)
      else
        (case makedirs env w (dirname output_path) of
           (Some e, w1) \<Rightarrow> (Some e, w1)
         | (None, w1) \<Rightarrow>
             let w2 = log_to INFO ''Converting PDF to images...'' w1
             in case convert_from_path env input_path (dpi self) of
                  Inl e \<Rightarrow> (Some e, w2)
                | Inr images \<Rightarrow>
                    (case pdf_reader env input_path of
                       Inl e \<Rightarrow> (Some e, w2)
                     | Inr pages \<Rightarrow>
                         (case page_loop env self pages (length images) (enumerate_list images)
                                 ([], w2) of
                            (Some e, writer, w3) \<Rightarrow> (Some e, w3)
                          | (None, writer, w3) \<Rightarrow>
                              (case open_wb env w3 output_path of
                                 (Some e, w4) \<Rightarrow> (Some e, w4)
                               | (None, w4) \<Rightarrow>
                                   (case write_error env writer of
                                      Some e \<Rightarrow> (Some e, w4)
                                    | None \<Rightarrow>
                                        (None,
                                         log_to INFO
                                           (''Successfully saved searchable PDF to: '' @ output_path)
                                           (w4\<lparr>files := (files w4)(output_path \<mapsto> PdfDoc writer)\<rparr>))))))))"

text \<open>\<^verbatim>\<open>process_pdf\<close>: the returned pair and the surroundings afterwards.\<close>

definition process_pdf ::
  "('img, 'pg) env \<Rightarrow> processor \<Rightarrow> 'pg world \<Rightarrow> string \<Rightarrow> string \<Rightarrow> (bool \<times> string) \<times> 'pg world"
where
  "process_pdf env self w input_path output_path =
     (case process_pdf_try env self w input_path output_path of
        (None, w') \<Rightarrow> ((True, ''Processing completed successfully''), w')
      | (Some e, w') \<Rightarrow>
          (let error_msg = ''Error processing PDF: '' @ str_exc e
           in ((False, error_msg), log_to ERROR error_msg w')))"

section \<open>Notions used to state the properties\<close>

text \<open>The confidence of row \<open>i\<close> as the loop sees it: looked up, then coerced.\<close>

definition row_conf :: "(pystr \<Rightarrow> pyexc + pyfloat) \<Rightarrow> ocr_data \<Rightarrow> nat \<Rightarrow> pyexc + pyfloat" where
  "row_conf fs d i =
     (case col_get ''conf'' (conf_col d) i of Inl e \<Rightarrow> Inl e | Inr cc \<Rightarrow> py_float fs cc)"

text \<open>Row \<open>i\<close> passes the filter: its confidence is not below the threshold.\<close>

definition row_passes :: "(pystr \<Rightarrow> pyexc + pyfloat) \<Rightarrow> int \<Rightarrow> ocr_data \<Rightarrow> nat \<Rightarrow> bool" where
  "row_passes fs thr d i =
     (case row_conf fs d i of Inl e \<Rightarrow> False | Inr cf \<Rightarrow> \<not> float_lt_int cf thr)"

definition n_rows :: "ocr_data \<Rightarrow> nat" where
  "n_rows d = (case text_col d of None \<Rightarrow> 0 | Some ts \<Rightarrow> length ts)"

definition kept_rows :: "(pystr \<Rightarrow> pyexc + pyfloat) \<Rightarrow> int \<Rightarrow> ocr_data \<Rightarrow> nat list" where
  "kept_rows fs thr d = filter (row_passes fs thr d) [0..<n_rows d]"

definition the_item :: "ocr_data \<Rightarrow> nat \<Rightarrow> item" where
  "the_item d i = projr (row_item d i)"

definition the_block :: "ocr_data \<Rightarrow> nat \<Rightarrow> int" where
  "the_block d i = projr (col_get ''block_num'' (block_num_col d) i)"

text \<open>
  The specification's grouping: a list cut into its maximal runs of neighbours with the
  same key, in order.
\<close>

primrec runs :: "('a \<Rightarrow> 'k) \<Rightarrow> 'a list \<Rightarrow> 'a list list" where
  "runs k [] = []"
| "runs k (x # xs) =
     (case runs k xs of
        [] \<Rightarrow> [[x]]
      | r # rs \<Rightarrow> if k x = k (hd r) then (x # r) # rs else [x] # r # rs)"

text \<open>The draw command that lines 185 to 190 build for an item on a page of size \<open>sz\<close>.\<close>

definition item_cmd :: "int \<times> int \<Rightarrow> item \<Rightarrow> draw_cmd" where
  "item_cmd sz it =
     \<lparr>cmd_x = item_x it, cmd_y = snd sz - item_y it - item_height it,
      cmd_text = utf8_ignore (py_strip (item_text it))\<rparr>"

text \<open>
  An item is drawn: its text is not empty after \<^verbatim>\<open>strip()\<close> and \<^verbatim>\<open>drawString\<close> does not
  raise for it with font \<open>fnt\<close>.
\<close>

definition item_drawn ::
  "(string \<Rightarrow> int \<Rightarrow> int \<Rightarrow> pystr \<Rightarrow> pyexc option) \<Rightarrow> string \<Rightarrow> int \<times> int \<Rightarrow> item \<Rightarrow> bool"
where
  "item_drawn df fnt sz it =
     (py_strip (item_text it) \<noteq> [] \<and>
      df fnt (item_x it) (snd sz - item_y it - item_height it)
         (utf8_ignore (py_strip (item_text it))) = None)"

subsection \<open>What each item and each row contributes\<close>

text \<open>The warning that lines 192 to 194 log for an item, if \<^verbatim>\<open>drawString\<close> raises for it.\<close>

definition item_warning ::
  "(string \<Rightarrow> int \<Rightarrow> int \<Rightarrow> pystr \<Rightarrow> pyexc option) \<Rightarrow> string \<Rightarrow> int \<times> int \<Rightarrow> item \<Rightarrow> log_entry list"
where
  "item_warning df fnt sz it =
     (if py_strip (item_text it) = [] then []
      else case df fnt (item_x it) (snd sz - item_y it - item_height it)
                  (utf8_ignore (py_strip (item_text it))) of
             None \<Rightarrow> []
           | Some e \<Rightarrow> [(WARNING, ''Failed to write text: '' @ str_exc e)])"

text \<open>The draw commands that come from row \<open>i\<close> of the recognition output.\<close>

definition row_cmds ::
  "(pystr \<Rightarrow> pyexc + pyfloat) \<Rightarrow> (string \<Rightarrow> int \<Rightarrow> int \<Rightarrow> pystr \<Rightarrow> pyexc option) \<Rightarrow> processor \<Rightarrow>
     ocr_data \<Rightarrow> int \<times> int \<Rightarrow> nat \<Rightarrow> draw_cmd list"
where
  "row_cmds fs df self d sz i =
     (if row_passes fs (conf_threshold self) d i \<and> item_drawn df (font_name self) sz (the_item d i)
      then [item_cmd sz (the_item d i)] else [])"

text \<open>
  The recognition output with every confidence that \<^verbatim>\<open>float\<close> accepts replaced by the
  float it gives.
\<close>

definition coerce_conf :: "(pystr \<Rightarrow> pyexc + pyfloat) \<Rightarrow> conf_cell \<Rightarrow> conf_cell" where
  "coerce_conf fs c = (case py_float fs c of Inl e \<Rightarrow> c | Inr f \<Rightarrow> ConfFloat f)"

definition coerced :: "(pystr \<Rightarrow> pyexc + pyfloat) \<Rightarrow> ocr_data \<Rightarrow> ocr_data" where
  "coerced fs d = d\<lparr>conf_col := map_option (map (coerce_conf fs)) (conf_col d)\<rparr>"

subsection \<open>Example inputs\<close>

text \<open>
  A \<^verbatim>\<open>float(str)\<close> that knows two numerals, a \<^verbatim>\<open>drawString\<close> that never raises, the
  processor as \<^verbatim>\<open>__init__\<close> leaves it when the custom font is missing, and two pages.
\<close>

definition ex_float_str :: "pystr \<Rightarrow> pyexc + pyfloat" where
  "ex_float_str s =
     (if s = ascii ''95'' then Inr (FFin 95)
      else if s = ascii ''-1'' then Inr (FFin (- 1))
      else Inl (PyExc ValueError ''could not convert string to float''))"

definition ex_draw_ok :: "string \<Rightarrow> int \<Rightarrow> int \<Rightarrow> pystr \<Rightarrow> pyexc option" where
  "ex_draw_ok fnt x y t = None"

definition ex_self :: processor where
  "ex_self = \<lparr>font_name = ''Helvetica'', conf_threshold = 60, dpi = 300\<rparr>"

definition ex_page :: ocr_data where
  "ex_page =
     \<lparr>text_col = Some [ascii ''Hello'', ascii ''world'', ascii ''edge''],
      conf_col = Some [ConfInt 95, ConfInt 40, ConfInt 60],
      block_num_col = Some [0, 0, 0],
      left_col = Some [10, 70, 130],
      top_col = Some [20, 20, 20],
      width_col = Some [50, 50, 40],
      height_col = Some [15, 15, 15]\<rparr>"

definition ex_blocks :: ocr_data where
  "ex_blocks =
     \<lparr>text_col = Some [ascii ''a'', ascii ''b'', ascii ''x'', ascii ''c'', ascii ''d''],
      conf_col = Some [ConfInt 90, ConfFloat (FFin 91), ConfInt (- 1), ConfStr (ascii ''95''), ConfInt 93],
      block_num_col = Some [1, 1, 7, 2, 1],
      left_col = Some [10, 20, 0, 30, 40],
      top_col = Some [5, 5, 0, 25, 45],
      width_col = Some [8, 8, 200, 8, 8],
      height_col = Some [10, 10, 100, 10, 10]\<rparr>"

text \<open>A \<^verbatim>\<open>drawString\<close> that raises for one text, and a block with that text in it.\<close>

definition ex_draw_bad :: "string \<Rightarrow> int \<Rightarrow> int \<Rightarrow> pystr \<Rightarrow> pyexc option" where
  "ex_draw_bad fnt x y t =
     (if t = ascii ''bad'' then Some (PyExc LibraryError ''cannot encode'') else None)"

definition ex_block_items :: "item list" where
  "ex_block_items =
     [\<lparr>item_text = ascii ''Hi'', item_x = 1, item_y = 10, item_width = 9, item_height = 5\<rparr>,
      \<lparr>item_text = ascii ''  '', item_x = 2, item_y = 20, item_width = 9, item_height = 5\<rparr>,
      \<lparr>item_text = ascii ''bad'', item_x = 3, item_y = 30, item_width = 9, item_height = 5\<rparr>,
      \<lparr>item_text = ascii '' yo'', item_x = 4, item_y = 40, item_width = 9, item_height = 5\<rparr>]"

subsection \<open>The loop invariant\<close>

text \<open>
  What an iteration does to the state for a row that passes the filter and whose
  lookups succeed: lines 148 to 160.
\<close>

definition add_item :: "(string \<Rightarrow> int \<Rightarrow> int \<Rightarrow> pystr \<Rightarrow> pyexc option) \<Rightarrow> int \<times> int \<Rightarrow> int \<Rightarrow> item \<Rightarrow> lstate \<Rightarrow> lstate" where
  "add_item df sz b it s =
     (let s1 = (if b \<noteq> last_block_num s
               then (flush df sz s)\<lparr>text_block := [], last_block_num := b\<rparr>
               else s)
      in s1\<lparr>text_block := text_block s1 @ [it]\<rparr>)"

text \<open>The blocks flushed so far, followed by the buffer if it holds anything.\<close>

definition pending :: "lstate \<Rightarrow> item list list" where
  "pending s = flushes s @ (if text_block s = [] then [] else [text_block s])"

text \<open>The canvas holds exactly the commands of the drawn items of the flushed blocks.\<close>

definition drawn_inv ::
  "(string \<Rightarrow> int \<Rightarrow> int \<Rightarrow> pystr \<Rightarrow> pyexc option) \<Rightarrow> int \<times> int \<Rightarrow> lstate \<Rightarrow> bool" where
  "drawn_inv df sz s \<longleftrightarrow>
     cmds (ls_canvas s) =
       map (item_cmd sz) (filter (item_drawn df (fst (cv_font (ls_canvas s))) sz) (concat (flushes s)))"

text \<open>The invariant of the loop after the rows \<open>ks\<close> have passed the filter.\<close>

definition loop_inv ::
  "(string \<Rightarrow> int \<Rightarrow> int \<Rightarrow> pystr \<Rightarrow> pyexc option) \<Rightarrow> int \<times> int \<Rightarrow> ocr_data \<Rightarrow> string \<times> nat \<Rightarrow>
     nat list \<Rightarrow> lstate \<Rightarrow> bool" where
  "loop_inv df sz d fnt ks s \<longleftrightarrow>
     pending s = map (map (the_item d)) (runs (the_block d) ks) \<and>
     (if ks = [] then text_block s = []
      else text_block s \<noteq> [] \<and> last_block_num s = the_block d (last ks)) \<and>
     concat (flushes s) @ text_block s = map (the_item d) ks \<and>
     drawn_inv df sz s \<and> cv_font (ls_canvas s) = fnt"

text \<open>Two states of the loop that differ at most in the records of the logger.\<close>

definition same_but_log :: "lstate \<Rightarrow> lstate \<Rightarrow> bool" where
  "same_but_log s t \<longleftrightarrow>
     ls_canvas s = ls_canvas t \<and> last_block_num s = last_block_num t \<and>
     text_block s = text_block t \<and> flushes s = flushes t"

text \<open>
  Page \<open>out\<close> is what an iteration of the loop over the pages adds for the pair \<open>ii\<close>
  of index and image, when \<open>reg\<close> are the registered fonts.
\<close>

definition page_done ::
  "('img, 'pg) env \<Rightarrow> processor \<Rightarrow> string list \<Rightarrow> 'pg list \<Rightarrow> nat \<times> 'img \<Rightarrow> 'pg \<Rightarrow> bool" where
  "page_done env self reg pages ii out \<longleftrightarrow>
     (case image_to_data env (snd ii) of
        Inl e \<Rightarrow> False
      | Inr d \<Rightarrow>
          (case fst (create_text_layer (float_str env) (draw_error env) self reg [] d
                       (image_size env (snd ii))) of
             Inl e \<Rightarrow> False
           | Inr layer \<Rightarrow>
               fst ii < length pages \<and> merge_page env (pages ! fst ii) layer = Inr out))"

text \<open>
  Surroundings for the examples: a scan of two pages, the second blank, with images
  numbered 0 and 1 and pages that carry their number and the commands merged into them.
  No custom font file exists.
\<close>

definition ex_blank :: ocr_data where
  "ex_blank =
     \<lparr>text_col = Some [[]],
      conf_col = Some [ConfInt (- 1)],
      block_num_col = Some [0],
      left_col = Some [0],
      top_col = Some [0],
      width_col = Some [200],
      height_col = Some [100]\<rparr>"

definition ex_env :: "(nat, nat \<times> draw_cmd list) env" where
  "ex_env =
     \<lparr>module_dir = ''/app'',
      ttfont_load = (\<lambda>name path. None),
      mkdir_error = (\<lambda>p. None),
      convert_from_path = (\<lambda>p d. if p = ''/in/scan.pdf'' then Inr [0, 1]
                                   else Inl (PyExc LibraryError ''Unable to get page count.'')),
      pdf_reader = (\<lambda>p. if p = ''/in/scan.pdf'' then Inr [(0, []), (1, [])]
                         else Inl (PyExc LibraryError ''cannot read'')),
      image_to_data = (\<lambda>i. if i = 0 then Inr ex_page else Inr ex_blank),
      image_size = (\<lambda>i. (200, 100)),
      merge_page = (\<lambda>pg c. Inr (fst pg, cmds c)),
      open_error = (\<lambda>p. None),
      write_error = (\<lambda>ps. None),
      float_str = ex_float_str,
      draw_error = ex_draw_ok\<rparr>"

definition ex_world :: "(nat \<times> draw_cmd list) world" where
  "ex_world =
     \<lparr>files = [''/in/scan.pdf'' \<mapsto> Opaque],
      dirs = {''/'', ''/in''},
      fonts = [],
      logged = [],
      tesseract_cmd = ''tesseract'',
      opened_wb = []\<rparr>"

text \<open>The same libraries, except that \<^verbatim>\<open>writer.write\<close> raises.\<close>

definition ex_env_full_disk :: "(nat, nat \<times> draw_cmd list) env" where
  "ex_env_full_disk =
     ex_env\<lparr>write_error := (\<lambda>ps. Some (PyExc LibraryError ''No space left on device''))\<rparr>"

text \<open>
  Every lookup that the loop makes for row \<open>i\<close> succeeds: the confidence is there and
  \<^verbatim>\<open>float\<close> accepts it, and if the row passes the filter its other entries are there.
\<close>

definition row_ok :: "(pystr \<Rightarrow> pyexc + pyfloat) \<Rightarrow> int \<Rightarrow> ocr_data \<Rightarrow> nat \<Rightarrow> bool" where
  "row_ok fs thr d i =
     (case row_conf fs d i of
        Inl e \<Rightarrow> False
      | Inr cf \<Rightarrow>
          float_lt_int cf thr \<or>
          (\<not> isl (col_get ''block_num'' (block_num_col d) i) \<and> \<not> isl (row_item d i)))"

text \<open>The font is one that \<^verbatim>\<open>setFont\<close> accepts.\<close>

definition font_known :: "string list \<Rightarrow> string \<Rightarrow> bool" where
  "font_known reg name = (name \<in> set standardFonts \<or> name \<in> set reg)"

text \<open>
  Recognition outputs that are not well formed: one with only an empty \<^verbatim>\<open>text\<close> column,
  one with columns of different lengths and columns missing, and one whose \<^verbatim>\<open>conf\<close> column
  is shorter than its \<^verbatim>\<open>text\<close> column; and libraries that give the last for the second
  page.
\<close>

definition ex_no_columns :: ocr_data where
  "ex_no_columns =
     \<lparr>text_col = Some [], conf_col = None, block_num_col = None, left_col = None,
      top_col = None, width_col = None, height_col = None\<rparr>"

definition ex_ragged :: ocr_data where
  "ex_ragged =
     \<lparr>text_col = Some [ascii ''Hi''], conf_col = Some [ConfInt 10, ConfInt 99],
      block_num_col = None, left_col = Some [1, 2, 3], top_col = Some [],
      width_col = None, height_col = None\<rparr>"

definition ex_short_conf :: ocr_data where
  "ex_short_conf =
     \<lparr>text_col = Some [ascii ''Hi'', ascii ''yo''], conf_col = Some [ConfInt 10],
      block_num_col = Some [0, 0], left_col = Some [1, 2], top_col = Some [3, 4],
      width_col = Some [5, 6], height_col = Some [7, 8]\<rparr>"

definition ex_env_short :: "(nat, nat \<times> draw_cmd list) env" where
  "ex_env_short = ex_env\<lparr>image_to_data := (\<lambda>i. if i = 0 then Inr ex_page else Inr ex_short_conf)\<rparr>"

section \<open>Auxiliary lemmas\<close>

lemma write_item_cmds:
  "cmds (fst (write_item df sz (c, lg) it)) =
     cmds c @ (if item_drawn df (fst (cv_font c)) sz it then [item_cmd sz it] else [])"
  by (simp add: write_item_def drawString_def item_drawn_def item_cmd_def Let_def split: option.splits)

lemma write_item_font: "cv_font (fst (write_item df sz (c, lg) it)) = cv_font c"
  by (simp add: write_item_def drawString_def Let_def split: option.splits)

lemma write_text_block_font: "cv_font (fst (write_text_block df st blk sz)) = cv_font (fst st)"
  by (induction blk arbitrary: st) (auto simp: write_item_font split: prod.splits)

lemma write_text_block_cmds:
  "cmds (fst (write_text_block df st blk sz)) =
     cmds (fst st) @ map (item_cmd sz) (filter (item_drawn df (fst (cv_font (fst st))) sz) blk)"
proof (induction blk arbitrary: st)
  case Nil
  show ?case by simp
next
  case (Cons it rest)
  obtain c lg where st: "st = (c, lg)" by (cases st)
  show ?case
    unfolding write_text_block.simps Cons.IH
    by (simp add: st write_item_cmds write_item_font)
qed

lemma layer_loop_append:
  "layer_loop fs df self d sz (xs @ ys) s =
     (case layer_loop fs df self d sz xs s of
        (Some e, s') \<Rightarrow> (Some e, s')
      | (None, s') \<Rightarrow> layer_loop fs df self d sz ys s')"
  by (induction xs arbitrary: s) (auto split: prod.splits option.splits)

lemma layer_loop_snoc:
  "layer_loop fs df self d sz (xs @ [i]) s =
     (case layer_loop fs df self d sz xs s of
        (Some e, s') \<Rightarrow> (Some e, s')
      | (None, s') \<Rightarrow> layer_step fs df self d sz i s')"
  by (simp add: layer_loop_append split: prod.splits option.splits)

lemma layer_step_NoneD:
  assumes "layer_step fs df self d sz i s = (None, s')"
  shows "(\<not> row_passes fs (conf_threshold self) d i \<and> s' = s) \<or>
         (row_passes fs (conf_threshold self) d i \<and>
          (\<exists>b it. col_get ''block_num'' (block_num_col d) i = Inr b \<and> row_item d i = Inr it \<and>
                  s' = add_item df sz b it s))"
  using assms
  by (auto simp: layer_step_def row_passes_def row_conf_def add_item_def Let_def
           split: sum.splits if_splits)

lemma runs_Nil_iff [simp]: "runs k xs = [] \<longleftrightarrow> xs = []"
  by (cases xs) (auto split: list.splits)

lemma runs_no_empty: "[] \<notin> set (runs k xs)"
  by (induction xs) (auto split: list.splits)

lemma concat_runs: "concat (runs k xs) = xs"
  by (induction xs) (auto split: list.splits)

lemma hd_hd_runs: "hd (hd (runs k (x # xs))) = x"
  by (auto split: list.splits)

lemma runs_snoc:
  "xs \<noteq> [] \<Longrightarrow> runs k (xs @ [y]) =
     (if k (last xs) = k y then butlast (runs k xs) @ [last (runs k xs) @ [y]]
      else runs k xs @ [[y]])"
proof (induction xs)
  case Nil
  then show ?case by simp
next
  case (Cons x xs)
  show ?case
  proof (cases "xs = []")
    case True
    then show ?thesis by simp
  next
    case False
    obtain r rs where R: "runs k xs = r # rs"
      using False by (cases "runs k xs") auto
    have rne: "r \<noteq> []" using runs_no_empty[of k xs] R by auto
    from Cons.IH[OF False] R rne False show ?thesis
      by (cases rs) (auto split: list.splits simp: butlast_append)
  qed
qed

lemma flush_flushes:
  "flushes (flush df sz s) = flushes s @ (if text_block s = [] then [] else [text_block s])"
  by (simp add: flush_def Let_def)

lemma flush_cmds:
  "cmds (ls_canvas (flush df sz s)) =
     cmds (ls_canvas s) @
     map (item_cmd sz) (filter (item_drawn df (fst (cv_font (ls_canvas s))) sz) (text_block s))"
  by (simp add: flush_def Let_def write_text_block_cmds)

lemma flush_font: "cv_font (ls_canvas (flush df sz s)) = cv_font (ls_canvas s)"
  by (simp add: flush_def Let_def write_text_block_font)

lemma flush_block: "text_block (flush df sz s) = text_block s"
  by (simp add: flush_def Let_def)

lemma flush_lbn: "last_block_num (flush df sz s) = last_block_num s"
  by (simp add: flush_def Let_def)

lemma add_item_block: "text_block (add_item df sz b it s) \<noteq> []"
  by (simp add: add_item_def Let_def)

lemma add_item_lbn: "last_block_num (add_item df sz b it s) = b"
  by (simp add: add_item_def Let_def)

lemma add_item_font: "cv_font (ls_canvas (add_item df sz b it s)) = cv_font (ls_canvas s)"
  by (simp add: add_item_def Let_def flush_font)

lemma add_item_pending:
  "pending (add_item df sz b it s) =
     (if text_block s \<noteq> [] \<and> b = last_block_num s
      then flushes s @ [text_block s @ [it]]
      else pending s @ [[it]])"
  by (simp add: add_item_def Let_def pending_def flush_flushes)

lemma add_item_all:
  "concat (flushes (add_item df sz b it s)) @ text_block (add_item df sz b it s) =
     concat (flushes s) @ text_block s @ [it]"
  by (simp add: add_item_def Let_def flush_flushes)

lemma flush_drawn_inv: "drawn_inv df sz s \<Longrightarrow> drawn_inv df sz (flush df sz s)"
  by (simp add: drawn_inv_def flush_cmds flush_font flush_flushes)

lemma add_item_drawn_inv: "drawn_inv df sz s \<Longrightarrow> drawn_inv df sz (add_item df sz b it s)"
  using flush_drawn_inv[of df sz s]
  by (simp add: add_item_def Let_def drawn_inv_def)

lemma loop_inv_add:
  assumes inv: "loop_inv df sz d fnt ks s"
    and b: "col_get ''block_num'' (block_num_col d) i = Inr b"
    and it: "row_item d i = Inr it"
  shows "loop_inv df sz d fnt (ks @ [i]) (add_item df sz b it s)"
proof -
  have tb: "the_block d i = b" and ti: "the_item d i = it"
    using b it by (simp_all add: the_block_def the_item_def)
  show ?thesis
  proof (cases "ks = []")
    case True
    with inv have "text_block s = []" "flushes s = []" "pending s = []"
      by (auto simp: loop_inv_def pending_def split: if_splits)
    with inv True show ?thesis
      by (simp add: loop_inv_def add_item_pending add_item_block add_item_lbn add_item_all
            add_item_drawn_inv add_item_font tb ti)
  next
    case False
    with inv have ne: "text_block s \<noteq> []" and lbn: "last_block_num s = the_block d (last ks)"
      and pend: "pending s = map (map (the_item d)) (runs (the_block d) ks)"
      by (auto simp: loop_inv_def)
    have rne: "runs (the_block d) ks \<noteq> []" using False by simp
    have pl: "pending s = flushes s @ [text_block s]" using ne by (simp add: pending_def)
    have fl: "flushes s = map (map (the_item d)) (butlast (runs (the_block d) ks))"
      using pl pend rne by (metis butlast_snoc map_butlast)
    have tl: "text_block s = map (the_item d) (last (runs (the_block d) ks))"
      using pl pend rne by (metis last_map last_snoc)
    have "pending (add_item df sz b it s) =
            map (map (the_item d)) (runs (the_block d) (ks @ [i]))"
      using False ne lbn
      by (simp add: add_item_pending runs_snoc tb ti fl tl pend)
    with inv False show ?thesis
      by (simp add: loop_inv_def add_item_block add_item_lbn add_item_all
            add_item_drawn_inv add_item_font tb ti)
  qed
qed

lemma layer_loop_inv:
  assumes "layer_loop fs df self d sz [0..<n] s0 = (None, s)"
    and "loop_inv df sz d fnt [] s0"
  shows "loop_inv df sz d fnt (filter (row_passes fs (conf_threshold self) d) [0..<n]) s"
  using assms(1)
proof (induction n arbitrary: s)
  case 0
  then show ?case using assms(2) by simp
next
  case (Suc n)
  from Suc.prems obtain s' where
    l: "layer_loop fs df self d sz [0..<n] s0 = (None, s')" and
    st: "layer_step fs df self d sz n s' = (None, s)"
    by (auto simp: layer_loop_snoc split: prod.splits option.splits)
  note IH = Suc.IH[OF l]
  from layer_step_NoneD[OF st] show ?case
  proof (elim disjE conjE exE)
    assume "\<not> row_passes fs (conf_threshold self) d n" "s = s'"
    then show ?thesis using IH by simp
  next
    fix b it
    assume "row_passes fs (conf_threshold self) d n"
      "col_get ''block_num'' (block_num_col d) n = Inr b" "row_item d n = Inr it"
      "s = add_item df sz b it s'"
    then show ?thesis using loop_inv_add[OF IH] by simp
  qed
qed

lemma text_layer_run_NoneD:
  assumes "text_layer_run fs df self reg lg d sz = (None, s)"
  shows "flushes s = map (map (the_item d)) (runs (the_block d) (kept_rows fs (conf_threshold self) d))"
    and "cmds (ls_canvas s) =
           map (item_cmd sz) (filter (item_drawn df (font_name self) sz)
             (map (the_item d) (kept_rows fs (conf_threshold self) d)))"
    and "cv_font (ls_canvas s) = (font_name self, 8)"
    and "text_col d \<noteq> None"
proof -
  let ?s0 = "\<lparr>ls_canvas = canvas_new sz, ls_log = lg, last_block_num = - 1,
               text_block = [], flushes = []\<rparr>"
  from assms obtain c1 where c1: "setFont reg (canvas_new sz) (font_name self) 8 = Inr c1"
    by (auto simp: text_layer_run_def Let_def split: sum.splits)
  let ?s1 = "?s0\<lparr>ls_canvas := setFillColor c1 (0, 0, 0, 0)\<rparr>"
  from assms c1 obtain n where n: "col_len ''text'' (text_col d) = Inr n"
    by (auto simp: text_layer_run_def Let_def split: sum.splits)
  from assms c1 n obtain s2 where
    l: "layer_loop fs df self d sz [0..<n] ?s1 = (None, s2)" and s: "s = flush df sz s2"
    by (auto simp: text_layer_run_def Let_def split: sum.splits prod.splits option.splits)
  from n show "text_col d \<noteq> None" by (auto simp: col_len_def split: option.splits)
  from n have nr: "n_rows d = n" by (auto simp: col_len_def n_rows_def split: option.splits)
  have f1: "cv_font (setFillColor c1 (0, 0, 0, 0)) = (font_name self, 8)"
    and c0: "cmds (setFillColor c1 (0, 0, 0, 0)) = []"
    using c1 by (auto simp: setFont_def setFillColor_def canvas_new_def split: if_splits)
  have "loop_inv df sz d (font_name self, 8) [] ?s1"
    using f1 c0 by (simp add: loop_inv_def pending_def drawn_inv_def)
  from layer_loop_inv[OF l this]
  have inv: "loop_inv df sz d (font_name self, 8) (kept_rows fs (conf_threshold self) d) s2"
    by (simp add: kept_rows_def nr)
  from inv show "flushes s = map (map (the_item d)) (runs (the_block d) (kept_rows fs (conf_threshold self) d))"
    by (simp add: s flush_flushes loop_inv_def pending_def)
  from inv show "cv_font (ls_canvas s) = (font_name self, 8)"
    by (simp add: s flush_font loop_inv_def)
  from inv have "drawn_inv df sz (flush df sz s2)" by (simp add: loop_inv_def flush_drawn_inv)
  moreover from inv have "concat (flushes (flush df sz s2)) = map (the_item d) (kept_rows fs (conf_threshold self) d)"
    by (cases "text_block s2 = []") (auto simp: flush_flushes loop_inv_def)
  moreover from inv have "fst (cv_font (ls_canvas (flush df sz s2))) = font_name self"
    by (simp add: flush_font loop_inv_def)
  ultimately show "cmds (ls_canvas s) =
           map (item_cmd sz) (filter (item_drawn df (font_name self) sz)
             (map (the_item d) (kept_rows fs (conf_threshold self) d)))"
    by (simp add: s drawn_inv_def)
qed

lemma layer_step_skip:
  "row_conf fs d i = Inr cf \<Longrightarrow> float_lt_int cf (conf_threshold self) \<Longrightarrow>
     layer_step fs df self d sz i s = (None, s)"
  by (auto simp: layer_step_def row_conf_def split: sum.splits)

lemma write_item_log:
  "snd (write_item df sz (c, lg) it) = lg @ item_warning df (fst (cv_font c)) sz it"
  by (simp add: write_item_def drawString_def item_warning_def Let_def split: option.splits)

lemma write_text_block_log:
  "snd (write_text_block df st blk sz) =
     snd st @ concat (map (item_warning df (fst (cv_font (fst st))) sz) blk)"
proof (induction blk arbitrary: st)
  case Nil
  show ?case by simp
next
  case (Cons it rest)
  obtain c lg where st: "st = (c, lg)" by (cases st)
  show ?case
    unfolding write_text_block.simps Cons.IH
    by (simp add: st write_item_log write_item_font)
qed

lemma concat_map_if:
  "concat (map (\<lambda>i. if P i then [f i] else []) xs) = map f (filter P xs)"
  by (induction xs) auto

lemma py_float_coerce: "py_float fs (coerce_conf fs c) = py_float fs c"
  by (simp add: coerce_conf_def split: sum.splits)

lemma col_get_coerced:
  "col_get k (map_option (map g) col) i = (case col_get k col i of Inl e \<Rightarrow> Inl e | Inr c \<Rightarrow> Inr (g c))"
  by (simp add: col_get_def split: option.splits)

lemma layer_step_coerced:
  "layer_step fs df self (coerced fs d) sz i s = layer_step fs df self d sz i s"
  by (simp add: layer_step_def coerced_def col_get_coerced py_float_coerce row_item_def
      split: sum.splits)

lemma layer_loop_coerced:
  "layer_loop fs df self (coerced fs d) sz is s = layer_loop fs df self d sz is s"
  by (induction "is" arbitrary: s) (simp_all add: layer_step_coerced split: prod.splits option.splits)

lemma text_layer_run_coerced:
  "text_layer_run fs df self reg lg (coerced fs d) sz = text_layer_run fs df self reg lg d sz"
proof -
  have t: "text_col (coerced fs d) = text_col d" by (simp add: coerced_def)
  show ?thesis unfolding text_layer_run_def t layer_loop_coerced by (rule refl)
qed

lemmas ex_defs =
  create_text_layer_def text_layer_run_def layer_step_def row_item_def col_get_def col_len_def
  flush_def write_item_def drawString_def setFont_def standardFonts_def canvas_new_def
  setFillColor_def py_strip_def py_isspace_def utf8_ignore_def is_surrogate_def float_of_int_def
  ascii_def Let_def ex_page_def ex_self_def ex_draw_ok_def ex_blocks_def ex_float_str_def

lemma ex_blocks_run:
  "fst (text_layer_run ex_float_str ex_draw_ok ex_self [] [] ex_blocks (200, 100)) = None"
  by (simp add: ex_defs upt_rec)

lemma ex_blocks_flushes:
  "flushes (snd (text_layer_run ex_float_str ex_draw_ok ex_self [] [] ex_blocks (200, 100))) =
  [[\<lparr>item_text = ascii ''a'', item_x = 10, item_y = 5, item_width = 8, item_height = 10\<rparr>,
             \<lparr>item_text = ascii ''b'', item_x = 20, item_y = 5, item_width = 8, item_height = 10\<rparr>],
            [\<lparr>item_text = ascii ''c'', item_x = 30, item_y = 25, item_width = 8, item_height = 10\<rparr>],
            [\<lparr>item_text = ascii ''d'', item_x = 40, item_y = 45, item_width = 8, item_height = 10\<rparr>]]"
  by (simp add: ex_defs upt_rec)

lemma ex_kept: "kept_rows ex_float_str (conf_threshold ex_self) ex_blocks = [0, 1, 3, 4]"
  by (simp add: kept_rows_def n_rows_def row_passes_def row_conf_def ex_defs upt_rec)

lemma ex_runs: "runs (the_block ex_blocks) [0, 1, 3, 4] = [[0, 1], [3], [4]]"
  by (simp add: the_block_def ex_defs)

lemma ex_page_layer:
  "create_text_layer ex_float_str ex_draw_ok ex_self [] [] ex_page (200, 100) =
   (Inr \<lparr>pagesize = (200, 100), cv_font = (''Helvetica'', 8), cv_fill = (0, 0, 0, 0),
      cmds = [\<lparr>cmd_x = 10, cmd_y = 65, cmd_text = ascii ''Hello''\<rparr>,
              \<lparr>cmd_x = 130, cmd_y = 65, cmd_text = ascii ''edge''\<rparr>]\<rparr>, [])"
  by (simp add: ex_defs upt_rec)

lemma write_item_fst: "fst (write_item df sz (c, lg) it) = fst (write_item df sz (c, lg') it)"
  by (simp add: write_item_def Let_def split: sum.splits)

lemma write_text_block_fst:
  "fst (write_text_block df (c, lg) blk sz) = fst (write_text_block df (c, lg') blk sz)"
proof (induction blk arbitrary: c lg lg')
  case Nil
  show ?case by simp
next
  case (Cons it rest)
  obtain c1 l1 where a: "write_item df sz (c, lg) it = (c1, l1)" by (cases "write_item df sz (c, lg) it")
  obtain c2 l2 where b: "write_item df sz (c, lg') it = (c2, l2)" by (cases "write_item df sz (c, lg') it")
  have "c1 = c2" using write_item_fst[of df sz c lg it lg'] a b by simp
  then show ?case using Cons.IH[of c1 l1 l2] a b by simp
qed

lemma same_but_log_flush:
  "same_but_log s t \<Longrightarrow> same_but_log (flush df sz s) (flush df sz t)"
  using write_text_block_fst[of df "ls_canvas t" "ls_log s" "text_block t" sz "ls_log t"]
  by (simp add: same_but_log_def flush_def Let_def)

lemma same_but_log_step:
  assumes "same_but_log s t"
  shows "fst (layer_step fs df self d sz i s) = fst (layer_step fs df self d sz i t) \<and>
         same_but_log (snd (layer_step fs df self d sz i s)) (snd (layer_step fs df self d sz i t))"
proof -
  have f: "same_but_log (flush df sz s) (flush df sz t)" by (rule same_but_log_flush[OF assms])
  from assms f show ?thesis
    by (simp add: layer_step_def Let_def same_but_log_def split: sum.splits)
qed

lemma same_but_log_loop:
  "same_but_log s t \<Longrightarrow>
     fst (layer_loop fs df self d sz is s) = fst (layer_loop fs df self d sz is t) \<and>
     same_but_log (snd (layer_loop fs df self d sz is s)) (snd (layer_loop fs df self d sz is t))"
proof (induction "is" arbitrary: s t)
  case Nil
  then show ?case by simp
next
  case (Cons i rest)
  obtain r1 s1 where a: "layer_step fs df self d sz i s = (r1, s1)" by (cases "layer_step fs df self d sz i s")
  obtain r2 t1 where b: "layer_step fs df self d sz i t = (r2, t1)" by (cases "layer_step fs df self d sz i t")
  from same_but_log_step[OF Cons.prems, of fs df self d sz i] a b
  have r: "r1 = r2" and st: "same_but_log s1 t1" by simp_all
  show ?case
  proof (cases r1)
    case None
    with a b r Cons.IH[OF st] show ?thesis by auto
  next
    case (Some e)
    with a b r st show ?thesis by auto
  qed
qed

lemma text_layer_run_log:
  "fst (text_layer_run fs df self reg lg d sz) = fst (text_layer_run fs df self reg lg' d sz) \<and>
   same_but_log (snd (text_layer_run fs df self reg lg d sz)) (snd (text_layer_run fs df self reg lg' d sz))"
proof (cases "setFont reg (canvas_new sz) (font_name self) 8")
  case (Inl e)
  then show ?thesis by (simp add: text_layer_run_def same_but_log_def)
next
  case (Inr c1)
  show ?thesis
  proof (cases "col_len ''text'' (text_col d)")
    case (Inl e)
    with Inr show ?thesis by (simp add: text_layer_run_def same_but_log_def)
  next
    case n: (Inr n)
    let ?s = "\<lambda>l. \<lparr>ls_canvas = setFillColor c1 (0, 0, 0, 0), ls_log = l, last_block_num = - 1,
                 text_block = [], flushes = []\<rparr>"
    have i: "same_but_log (?s lg) (?s lg')" by (simp add: same_but_log_def)
    obtain r1 s1 where a: "layer_loop fs df self d sz [0..<n] (?s lg) = (r1, s1)"
      by (cases "layer_loop fs df self d sz [0..<n] (?s lg)")
    obtain r2 t1 where b: "layer_loop fs df self d sz [0..<n] (?s lg') = (r2, t1)"
      by (cases "layer_loop fs df self d sz [0..<n] (?s lg')")
    from same_but_log_loop[OF i, of fs df self d sz "[0..<n]"] a b
    have r: "r1 = r2" and st: "same_but_log s1 t1" by simp_all
    show ?thesis
    proof (cases r1)
      case None
      with Inr n a b r same_but_log_flush[OF st] show ?thesis
        by (auto simp: text_layer_run_def)
    next
      case (Some e)
      with Inr n a b r st show ?thesis by (auto simp: text_layer_run_def)
    qed
  qed
qed

lemma create_text_layer_log:
  "fst (create_text_layer fs df self reg lg d sz) = fst (create_text_layer fs df self reg [] d sz)"
proof -
  obtain r1 s1 where a: "text_layer_run fs df self reg lg d sz = (r1, s1)"
    by (cases "text_layer_run fs df self reg lg d sz")
  obtain r2 t1 where b: "text_layer_run fs df self reg [] d sz = (r2, t1)"
    by (cases "text_layer_run fs df self reg [] d sz")
  from text_layer_run_log[of fs df self reg lg d sz "[]"] a b
  have "r1 = r2" "ls_canvas s1 = ls_canvas t1" by (simp_all add: same_but_log_def)
  with a b show ?thesis by (simp add: create_text_layer_def split: option.splits)
qed

lemma page_step_world:
  assumes "page_step env self pages n ii (wr, w) = (r, wr', w')"
  shows "files w' = files w \<and> dirs w' = dirs w \<and> opened_wb w' = opened_wb w \<and> fonts w' = fonts w"
  using assms
  by (auto simp: page_step_def Let_def log_to_def split: sum.splits if_splits)

lemma page_step_NoneD:
  assumes "page_step env self pages n ii (wr, w) = (None, wr', w')"
  shows "\<exists>d layer out. image_to_data env (snd ii) = Inr d \<and>
           fst (create_text_layer (float_str env) (draw_error env) self (fonts w) [] d
                  (image_size env (snd ii))) = Inr layer \<and>
           fst ii < length pages \<and> merge_page env (pages ! fst ii) layer = Inr out \<and>
           wr' = wr @ [out]"
proof -
  from assms obtain d where d: "image_to_data env (snd ii) = Inr d"
    by (auto simp: page_step_def Let_def split: sum.splits)
  let ?r = "create_text_layer (float_str env) (draw_error env) self (fonts w) (logged w) d
              (image_size env (snd ii))"
  from assms d obtain layer where l: "fst ?r = Inr layer"
    by (auto simp: page_step_def Let_def split: sum.splits)
  from assms d l have i: "fst ii < length pages"
    by (auto simp: page_step_def Let_def split: sum.splits if_splits)
  from assms d l i obtain out where o: "merge_page env (pages ! fst ii) layer = Inr out"
    and w: "wr' = wr @ [out]"
    by (auto simp: page_step_def Let_def split: sum.splits if_splits)
  from l have "fst (create_text_layer (float_str env) (draw_error env) self (fonts w) [] d
                  (image_size env (snd ii))) = Inr layer"
    using create_text_layer_log[of "float_str env" "draw_error env" self "fonts w" "logged w" d
        "image_size env (snd ii)"] by simp
  with d i o w show ?thesis by blast
qed

lemma page_loop_world:
  "page_loop env self pages n xs (wr, w) = (r, wr', w') \<Longrightarrow>
     files w' = files w \<and> dirs w' = dirs w \<and> opened_wb w' = opened_wb w \<and> fonts w' = fonts w"
proof (induction xs arbitrary: wr w)
  case Nil
  then show ?case by simp
next
  case (Cons ii rest)
  obtain r1 wr1 w1 where s: "page_step env self pages n ii (wr, w) = (r1, wr1, w1)"
    by (cases "page_step env self pages n ii (wr, w)") auto
  note a = page_step_world[OF s]
  show ?case
  proof (cases r1)
    case None
    with Cons.prems s have "page_loop env self pages n rest (wr1, w1) = (r, wr', w')" by simp
    from Cons.IH[OF this] a show ?thesis by simp
  next
    case (Some e)
    with Cons.prems s a show ?thesis by auto
  qed
qed

lemma page_loop_NoneD:
  "page_loop env self pages n xs (wr, w) = (None, wr', w') \<Longrightarrow>
     \<exists>outs. wr' = wr @ outs \<and> list_all2 (page_done env self (fonts w) pages) xs outs"
proof (induction xs arbitrary: wr w)
  case Nil
  then show ?case by simp
next
  case (Cons ii rest)
  obtain r1 wr1 w1 where s: "page_step env self pages n ii (wr, w) = (r1, wr1, w1)"
    by (cases "page_step env self pages n ii (wr, w)") auto
  with Cons.prems have r1: "r1 = None" by (cases r1) auto
  with Cons.prems s have l: "page_loop env self pages n rest (wr1, w1) = (None, wr', w')" by simp
  from page_step_NoneD[OF s[unfolded r1]] obtain out where
    pd: "page_done env self (fonts w) pages ii out" and w1: "wr1 = wr @ [out]"
    by (auto simp: page_done_def)
  from page_step_world[OF s] have f: "fonts w1 = fonts w" by simp
  from Cons.IH[OF l] obtain outs where "wr' = wr1 @ outs"
    "list_all2 (page_done env self (fonts w) pages) rest outs" by (auto simp: f)
  with pd w1 show ?case by (intro exI[of _ "out # outs"]) simp
qed


lemma makedirs_world:
  "makedirs env w name = (r, w1) \<Longrightarrow>
     files w1 = files w \<and> opened_wb w1 = opened_wb w \<and> fonts w1 = fonts w \<and> logged w1 = logged w"
  by (auto simp: makedirs_def split: if_splits option.splits)

lemma process_pdf_try_cases:
  assumes "process_pdf_try env self w inp out = (r, w')"
  shows "(\<exists>e. r = Some e \<and> files w' = files w \<and> opened_wb w' = opened_wb w) \<or>
         (\<exists>images pages wr. path_exists w inp \<and>
             convert_from_path env inp (dpi self) = Inr images \<and> pdf_reader env inp = Inr pages \<and>
             list_all2 (page_done env self (fonts w) pages) (enumerate_list images) wr \<and>
             opened_wb w' = opened_wb w @ [out] \<and>
             ((r = None \<and> write_error env wr = None \<and> files w' = (files w)(out \<mapsto> PdfDoc wr)) \<or>
              (\<exists>e. r = Some e \<and> write_error env wr = Some e \<and>
                   files w' = (files w)(out \<mapsto> Truncated))))"
proof (cases "path_exists w inp")
  case False
  with assms show ?thesis by (auto simp: process_pdf_try_def)
next
  case ex: True
  obtain r1 w1 where m: "makedirs env w (dirname out) = (r1, w1)"
    by (cases "makedirs env w (dirname out)")
  note mw = makedirs_world[OF m]
  show ?thesis
  proof (cases r1)
    case (Some e)
    with assms ex m mw show ?thesis by (auto simp: process_pdf_try_def)
  next
    case None
    let ?w2 = "log_to INFO ''Converting PDF to images...'' w1"
    have w2: "files ?w2 = files w" "opened_wb ?w2 = opened_wb w" "fonts ?w2 = fonts w"
      using mw by (simp_all add: log_to_def)
    show ?thesis
    proof (cases "convert_from_path env inp (dpi self)")
      case (Inl e)
      with assms ex m None w2 show ?thesis by (auto simp: process_pdf_try_def Let_def)
    next
      case im: (Inr images)
      show ?thesis
      proof (cases "pdf_reader env inp")
        case (Inl e)
        with assms ex m None w2 im show ?thesis by (auto simp: process_pdf_try_def Let_def)
      next
        case pg: (Inr pages)
        obtain r3 wr w3 where l:
          "page_loop env self pages (length images) (enumerate_list images) ([], ?w2) = (r3, wr, w3)"
          by (cases "page_loop env self pages (length images) (enumerate_list images) ([], ?w2)") auto
        from page_loop_world[OF l] w2
        have w3: "files w3 = files w" "opened_wb w3 = opened_wb w" by simp_all
        show ?thesis
        proof (cases r3)
          case (Some e)
          with assms ex m None im pg l w3 show ?thesis
            by (auto simp: process_pdf_try_def Let_def)
        next
          case l3: None
          from page_loop_NoneD[OF l[unfolded l3]] w2
          have pd: "list_all2 (page_done env self (fonts w) pages) (enumerate_list images) wr"
            by simp
          show ?thesis
          proof (cases "open_error env out")
            case (Some e)
            with assms ex m None im pg l l3 w3 show ?thesis
              by (auto simp: process_pdf_try_def Let_def open_wb_def intro: sym)
          next
            case op: None
            from assms ex m None im pg l l3 w3 op pd show ?thesis
              by (cases "write_error env wr")
                 (auto simp: process_pdf_try_def Let_def open_wb_def log_to_def)
          qed
        qed
      qed
    qed
  qed
qed

lemma layer_step_ok_iff:
  "fst (layer_step fs df self d sz i s) = None \<longleftrightarrow> row_ok fs (conf_threshold self) d i"
  by (auto simp: layer_step_def row_ok_def row_conf_def Let_def split: sum.splits)

lemma layer_loop_ok_iff:
  "fst (layer_loop fs df self d sz is s) = None \<longleftrightarrow>
     (\<forall>i\<in>set is. row_ok fs (conf_threshold self) d i)"
proof (induction "is" arbitrary: s)
  case Nil
  show ?case by simp
next
  case (Cons i rest)
  obtain r s1 where a: "layer_step fs df self d sz i s = (r, s1)"
    by (cases "layer_step fs df self d sz i s")
  show ?case
  proof (cases r)
    case None
    with a layer_step_ok_iff[of fs df self d sz i s] Cons.IH[of s1] show ?thesis by simp
  next
    case (Some e)
    with a layer_step_ok_iff[of fs df self d sz i s] show ?thesis by auto
  qed
qed

lemma text_layer_run_ok_iff:
  "fst (text_layer_run fs df self reg lg d sz) = None \<longleftrightarrow>
     font_known reg (font_name self) \<and> text_col d \<noteq> None \<and>
     (\<forall>i<n_rows d. row_ok fs (conf_threshold self) d i)"
proof (cases "font_known reg (font_name self)")
  case False
  then show ?thesis by (simp add: text_layer_run_def setFont_def font_known_def)
next
  case True
  then have sf: "setFont reg (canvas_new sz) (font_name self) 8 =
      Inr ((canvas_new sz)\<lparr>cv_font := (font_name self, 8)\<rparr>)"
    by (auto simp: setFont_def font_known_def)
  show ?thesis
  proof (cases "text_col d")
    case None
    with True sf show ?thesis by (simp add: text_layer_run_def col_len_def)
  next
    case (Some ts)
    let ?s1 = "\<lparr>ls_canvas = setFillColor ((canvas_new sz)\<lparr>cv_font := (font_name self, 8)\<rparr>) (0, 0, 0, 0),
                 ls_log = lg, last_block_num = - 1, text_block = [], flushes = []\<rparr>"
    obtain r s2 where a: "layer_loop fs df self d sz [0..<length ts] ?s1 = (r, s2)"
      by (cases "layer_loop fs df self d sz [0..<length ts] ?s1")
    have "fst (text_layer_run fs df self reg lg d sz) = r"
      using sf Some a by (cases r) (simp_all add: text_layer_run_def col_len_def)
    moreover have "r = None \<longleftrightarrow> (\<forall>i<length ts. row_ok fs (conf_threshold self) d i)"
      using layer_loop_ok_iff[of fs df self d sz "[0..<length ts]" ?s1] a by auto
    ultimately show ?thesis using True Some by (simp add: n_rows_def)
  qed
qed

lemma create_text_layer_ok_iff:
  "(\<exists>c. fst (create_text_layer fs df self reg lg d sz) = Inr c) \<longleftrightarrow>
     font_known reg (font_name self) \<and> text_col d \<noteq> None \<and>
     (\<forall>i<n_rows d. row_ok fs (conf_threshold self) d i)"
proof -
  obtain r s where a: "text_layer_run fs df self reg lg d sz = (r, s)"
    by (cases "text_layer_run fs df self reg lg d sz")
  have "(\<exists>c. fst (create_text_layer fs df self reg lg d sz) = Inr c) \<longleftrightarrow> r = None"
    using a by (cases r) (simp_all add: create_text_layer_def)
  then show ?thesis using text_layer_run_ok_iff[of fs df self reg lg d sz] a by simp
qed

lemma create_text_layer_no_text:
  "font_known reg (font_name self) \<Longrightarrow> text_col d = None \<Longrightarrow>
     fst (create_text_layer fs df self reg lg d sz) = Inl (key_error ''text'')"
  by (auto simp: create_text_layer_def text_layer_run_def setFont_def font_known_def col_len_def)

lemma create_text_layer_cmds:
  assumes "fst (create_text_layer fs df self reg lg d sz) = Inr c"
  shows "cmds c = concat (map (row_cmds fs df self d sz) [0..<n_rows d])"
proof -
  from assms obtain s where r: "text_layer_run fs df self reg lg d sz = (None, s)"
    and c: "c = ls_canvas s"
    by (auto simp: create_text_layer_def split: prod.splits option.splits)
  have "cmds c = map (item_cmd sz) (filter (item_drawn df (font_name self) sz)
             (map (the_item d) (kept_rows fs (conf_threshold self) d)))"
    using text_layer_run_NoneD(2)[OF r] c by simp
  also have "\<dots> = concat (map (row_cmds fs df self d sz) [0..<n_rows d])"
    unfolding row_cmds_def[abs_def] kept_rows_def
    by (simp add: concat_map_if filter_map comp_def)
  finally show ?thesis .
qed

lemmas ex2_defs =
  process_pdf_def process_pdf_try_def page_step_def enumerate_list_def makedirs_def open_wb_def
  log_to_def path_exists_def dirname_def ancestors_def ex_env_def ex_world_def ex_blank_def
  ex_env_full_disk_def str_nat.simps

lemma process_pdf_NoneD:
  "process_pdf env self w inp out = ((ok, msg), w') \<Longrightarrow>
     (ok \<longrightarrow> process_pdf_try env self w inp out = (None, w') \<and> msg = ''Processing completed successfully'') \<and>
     (\<not> ok \<longrightarrow> (\<exists>e w1. process_pdf_try env self w inp out = (Some e, w1) \<and>
         msg = ''Error processing PDF: '' @ str_exc e \<and> w' = log_to ERROR msg w1))"
  by (auto simp: process_pdf_def Let_def split: prod.splits option.splits)

lemma ex_missing_input:
  "process_pdf ex_env ex_self ex_world ''/no/such.pdf'' ''out.pdf'' =
     ((False, ''Error processing PDF: Input file not found: /no/such.pdf''),
      ex_world\<lparr>logged := [(ERROR, ''Error processing PDF: Input file not found: /no/such.pdf'')]\<rparr>)"
  by (simp add: ex2_defs Let_def)

lemma enumerate_list_nth:
  "i < length xs \<Longrightarrow> enumerate_list xs ! i = (i, xs ! i)"
  by (simp add: enumerate_list_def)

lemma length_enumerate_list: "length (enumerate_list xs) = length xs"
  by (simp add: enumerate_list_def)

lemma page_doneD:
  assumes "page_done env self reg pages (i, img) out"
  shows "\<exists>d layer. image_to_data env img = Inr d \<and>
           fst (create_text_layer (float_str env) (draw_error env) self reg [] d
                  (image_size env img)) = Inr layer \<and>
           i < length pages \<and> merge_page env (pages ! i) layer = Inr out"
  using assms by (auto simp: page_done_def split: sum.splits)

lemma ex_two_pages:
  "process_pdf ex_env ex_self ex_world ''/in/scan.pdf'' ''/out/res.pdf'' =
     ((True, ''Processing completed successfully''),
      ex_world\<lparr>files := [''/in/scan.pdf'' \<mapsto> Opaque,
                 ''/out/res.pdf'' \<mapsto>
                   PdfDoc [(0, [\<lparr>cmd_x = 10, cmd_y = 65, cmd_text = ascii ''Hello''\<rparr>,
                                \<lparr>cmd_x = 130, cmd_y = 65, cmd_text = ascii ''edge''\<rparr>]),
                           (1, [])]],
               dirs := {''/'', ''/in'', ''/out''},
               logged := [(INFO, ''Converting PDF to images...''), (INFO, ''Processed page 1/2''),
                          (INFO, ''Processed page 2/2''),
                          (INFO, ''Successfully saved searchable PDF to: /out/res.pdf'')],
               opened_wb := [''/out/res.pdf'']\<rparr>)"
  by (simp add: ex2_defs ex_defs upt_rec insert_commute)

lemma setup_font_fallback:
  assumes "\<not> path_exists w (font_file env) \<or> ttfont_load env ''0xProto-Regular'' (font_file env) \<noteq> None"
  shows "fst (setup_font env w) = ''Helvetica'' \<and> fonts (snd (setup_font env w)) = fonts w \<and>
         files (snd (setup_font env w)) = files w \<and>
         (\<exists>e. logged (snd (setup_font env w)) =
            logged w @ [(WARNING, ''Font registration failed: '' @ str_exc e @ ''. Using Helvetica.'')])"
proof (cases "path_exists w (font_file env)")
  case False
  let ?e = "PyExc FileNotFoundError (''Font file not found: '' @ font_file env)"
  have "setup_font env w =
      (''Helvetica'', log_to WARNING (''Font registration failed: '' @ str_exc ?e @ ''. Using Helvetica.'') w)"
    using False by (simp add: setup_font_def Let_def)
  then show ?thesis by (intro conjI exI[of _ ?e]) (simp_all add: log_to_def)
next
  case True
  with assms obtain e where e: "ttfont_load env ''0xProto-Regular'' (font_file env) = Some e" by auto
  have "setup_font env w =
      (''Helvetica'', log_to WARNING (''Font registration failed: '' @ str_exc e @ ''. Using Helvetica.'') w)"
    using True e by (simp add: setup_font_def Let_def)
  then show ?thesis by (intro conjI exI[of _ e]) (simp_all add: log_to_def)
qed

lemma setup_font_known: "font_known (fonts (snd (setup_font env w))) (fst (setup_font env w))"
  by (auto simp: setup_font_def Let_def log_to_def font_known_def standardFonts_def split: option.splits)

lemma init_path_exists:
  "path_exists (case tp of None \<Rightarrow> w | Some p \<Rightarrow> if p \<noteq> [] then w\<lparr>tesseract_cmd := p\<rparr> else w) q = path_exists w q"
  by (simp add: path_exists_def split: option.splits)

lemma ex_init:
  "PdfOcrProcessor ex_env (Some ''/opt/homebrew/bin/tesseract'') ex_world =
     (ex_self,
      ex_world\<lparr>logged := [(WARNING, ''Font registration failed: Font file not found: /app/fonts/0xProto-Regular.ttf. Using Helvetica.'')],
               tesseract_cmd := ''/opt/homebrew/bin/tesseract''\<rparr>)"
  by (simp add: PdfOcrProcessor_def setup_font_def font_file_def path_exists_def log_to_def Let_def
      ex_env_def ex_world_def ex_self_def)

lemma process_pdf_pages_ok:
  assumes "fst (fst (process_pdf env self w inp out))"
    and "convert_from_path env inp (dpi self) = Inr images"
    and "img \<in> set images"
  shows "\<exists>d. image_to_data env img = Inr d \<and> text_col d \<noteq> None \<and>
           (\<forall>i<n_rows d. row_ok (float_str env) (conf_threshold self) d i)"
proof -
  obtain msg w' where p: "process_pdf env self w inp out = ((True, msg), w')"
    using assms(1) by (cases "process_pdf env self w inp out") auto
  from process_pdf_NoneD[OF p]
  have t: "process_pdf_try env self w inp out = (None, w')" by simp
  from process_pdf_try_cases[OF t] assms(2) obtain pages wr where
    la: "list_all2 (page_done env self (fonts w) pages) (enumerate_list images) wr"
    by auto
  from assms(3) obtain k where k: "k < length images" "images ! k = img"
    by (auto simp: in_set_conv_nth)
  from la k have "page_done env self (fonts w) pages (k, img) (wr ! k)"
    by (auto simp: list_all2_conv_all_nth length_enumerate_list enumerate_list_nth)
  from page_doneD[OF this] obtain d layer where
    d: "image_to_data env img = Inr d" and
    l: "fst (create_text_layer (float_str env) (draw_error env) self (fonts w) [] d
                     (image_size env img)) = Inr layer"
    by blast
  from l create_text_layer_ok_iff[of "float_str env" "draw_error env" self "fonts w" "[]" d
      "image_size env img"]
  have "text_col d \<noteq> None \<and> (\<forall>i<n_rows d. row_ok (float_str env) (conf_threshold self) d i)"
    by blast
  with d show ?thesis by blast
qed

text \<open>
  \<open>runs\<close> is the grouping into maximal runs: with \<open>concat_runs\<close>, the runs put together give
  the list back; the key is constant within a run, and two neighbouring runs have
  different keys.
\<close>

lemma runs_same_key: "r \<in> set (runs k xs) \<Longrightarrow> x \<in> set r \<Longrightarrow> k x = k (hd r)"
proof (induction xs arbitrary: r)
  case Nil
  then show ?case by simp
next
  case (Cons y ys)
  show ?case
  proof (cases "runs k ys")
    case Nil
    with Cons.prems show ?thesis by auto
  next
    case (Cons q qs)
    have q: "q \<in> set (runs k ys)" using Cons by simp
    show ?thesis
    proof (cases "k y = k (hd q)")
      case True
      with Cons.prems Cons Cons.IH[OF q] Cons.IH show ?thesis by auto
    next
      case False
      with Cons.prems Cons Cons.IH show ?thesis by auto
    qed
  qed
qed

lemma runs_neighbours_differ:
  "Suc i < length (runs k xs) \<Longrightarrow> k (hd (runs k xs ! i)) \<noteq> k (hd (runs k xs ! Suc i))"
proof (induction xs arbitrary: i)
  case Nil
  then show ?case by simp
next
  case (Cons y ys)
  show ?case
  proof (cases "runs k ys")
    case Nil
    with Cons.prems show ?thesis by simp
  next
    case c: (Cons q qs)
    have qne: "q \<noteq> []" using runs_no_empty[of k ys] c by auto
    show ?thesis
    proof (cases "k y = k (hd q)")
      case True
      show ?thesis
      proof (cases i)
        case 0
        with True c Cons.prems Cons.IH[of 0] qne show ?thesis by simp
      next
        case (Suc j)
        with True c Cons.prems Cons.IH[of i] show ?thesis by simp
      qed
    next
      case False
      show ?thesis
      proof (cases i)
        case 0
        with False c show ?thesis by simp
      next
        case (Suc j)
        with False c Cons.prems Cons.IH[of j] show ?thesis by simp
      qed
    qed
  qed
qed

section \<open>The claims\<close>

text \<open>
  C2. Every word that \<^verbatim>\<open>_write_text_block\<close> draws on a page of height \<open>H\<close> is drawn at
  its own \<open>x\<close> and at \<open>H - y - height\<close>: the positions of the commands added to the canvas
  are those of the drawn items, in order. For \<open>H = 1000\<close>, \<open>y = 100\<close> and height \<open>20\<close> the
  vertical coordinate is \<open>880\<close>.
\<close>

theorem write_text_block_positions:
  "map (\<lambda>c. (cmd_x c, cmd_y c))
       (drop (length (cmds cv)) (cmds (fst (write_text_block df (cv, lg) blk (W, H))))) =
     map (\<lambda>it. (item_x it, H - item_y it - item_height it))
         (filter (item_drawn df (fst (cv_font cv)) (W, H)) blk) \<and>
   (item_drawn df (fst (cv_font cv)) (W, 1000) it \<and> item_y it = 100 \<and> item_height it = 20 \<longrightarrow>
      map cmd_y (drop (length (cmds cv))
        (cmds (fst (write_text_block df (cv, lg) [it] (W, 1000))))) = [880])"
  by (simp add: write_text_block_cmds item_cmd_def comp_def del: write_text_block.simps)

theorem write_text_block_positions_witness:
  "item_drawn ex_draw_ok ''Helvetica'' (200, 1000)
     \<lparr>item_text = ascii ''Hello'', item_x = 10, item_y = 100, item_width = 50, item_height = 20\<rparr> \<and>
   map (\<lambda>c. (cmd_x c, cmd_y c))
     (cmds (fst (write_text_block ex_draw_ok (canvas_new (200, 1000), [])
        [\<lparr>item_text = ascii ''Hello'', item_x = 10, item_y = 100, item_width = 50, item_height = 20\<rparr>]
        (200, 1000)))) = [(10, 880)]"
proof -
  let ?it = "\<lparr>item_text = ascii ''Hello'', item_x = 10, item_y = 100, item_width = 50,
               item_height = 20\<rparr>"
  have d: "item_drawn ex_draw_ok ''Helvetica'' (200, 1000) ?it"
    by (simp add: item_drawn_def ex_draw_ok_def py_strip_def py_isspace_def ascii_def)
  from write_text_block_positions[of "canvas_new (200, 1000)" ex_draw_ok "[]" "[?it]" 200 1000 ?it] d
  show ?thesis by (simp add: canvas_new_def)
qed

text \<open>
  C1. When \<^verbatim>\<open>_create_text_layer\<close> returns, the commands on the page are the commands of
  its rows, in order. A row whose confidence is strictly below the threshold contributes
  no command, and its iteration leaves the canvas, the buffer and the current block id as
  they were. The comparison is strict: a row whose confidence equals the threshold
  contributes its command, when its text is not empty after trimming and
  \<^verbatim>\<open>drawString\<close> does not raise.
\<close>

theorem low_confidence_rows_not_drawn:
  assumes "create_text_layer fs df self reg lg d sz = (Inr c, lg')"
  shows "cmds c = concat (map (row_cmds fs df self d sz) [0..<n_rows d]) \<and>
         (\<forall>i cf s. row_conf fs d i = Inr cf \<and> float_lt_int cf (conf_threshold self) \<longrightarrow>
            row_cmds fs df self d sz i = [] \<and> layer_step fs df self d sz i s = (None, s)) \<and>
         (\<forall>i. row_conf fs d i = Inr (FFin (of_int (conf_threshold self))) \<and>
              item_drawn df (font_name self) sz (the_item d i) \<longrightarrow>
            row_cmds fs df self d sz i = [item_cmd sz (the_item d i)])"
proof -
  from assms obtain s where r: "text_layer_run fs df self reg lg d sz = (None, s)"
    and c: "c = ls_canvas s"
    by (auto simp: create_text_layer_def split: prod.splits option.splits)
  have "cmds c = map (item_cmd sz) (filter (item_drawn df (font_name self) sz)
             (map (the_item d) (kept_rows fs (conf_threshold self) d)))"
    using text_layer_run_NoneD(2)[OF r] c by simp
  also have "\<dots> = concat (map (row_cmds fs df self d sz) [0..<n_rows d])"
    unfolding row_cmds_def[abs_def] kept_rows_def
    by (simp add: concat_map_if filter_map comp_def)
  finally have a: "cmds c = concat (map (row_cmds fs df self d sz) [0..<n_rows d])" .
  have b: "\<forall>i cf s. row_conf fs d i = Inr cf \<and> float_lt_int cf (conf_threshold self) \<longrightarrow>
            row_cmds fs df self d sz i = [] \<and> layer_step fs df self d sz i s = (None, s)"
    by (auto simp: row_cmds_def row_passes_def layer_step_skip)
  have e: "\<forall>i. row_conf fs d i = Inr (FFin (of_int (conf_threshold self))) \<and>
              item_drawn df (font_name self) sz (the_item d i) \<longrightarrow>
            row_cmds fs df self d sz i = [item_cmd sz (the_item d i)]"
    by (auto simp: row_cmds_def row_passes_def)
  from a b e show ?thesis by blast
qed

text \<open>
  The witness is the specification's scenario with a third word at the threshold:
  ``Hello'' (95) and ``edge'' (60) are drawn, ``world'' (40) is not.
\<close>

theorem low_confidence_rows_not_drawn_witness:
  "fst (create_text_layer ex_float_str ex_draw_ok ex_self [] [] ex_page (200, 100)) =
     Inr \<lparr>pagesize = (200, 100), cv_font = (''Helvetica'', 8), cv_fill = (0, 0, 0, 0),
          cmds = [\<lparr>cmd_x = 10, cmd_y = 65, cmd_text = ascii ''Hello''\<rparr>,
                  \<lparr>cmd_x = 130, cmd_y = 65, cmd_text = ascii ''edge''\<rparr>]\<rparr> \<and>
   row_conf ex_float_str ex_page 1 = Inr (FFin 40) \<and>
   row_cmds ex_float_str ex_draw_ok ex_self ex_page (200, 100) 1 = [] \<and>
   row_conf ex_float_str ex_page 2 = Inr (FFin 60) \<and>
   row_cmds ex_float_str ex_draw_ok ex_self ex_page (200, 100) 2 =
     [\<lparr>cmd_x = 130, cmd_y = 65, cmd_text = ascii ''edge''\<rparr>]"
proof -
  have c1: "row_conf ex_float_str ex_page 1 = Inr (FFin 40)"
    and c2: "row_conf ex_float_str ex_page 2 = Inr (FFin 60)"
    by (simp_all add: row_conf_def col_get_def ex_page_def float_of_int_def)
  have lt: "float_lt_int (FFin 40) (conf_threshold ex_self)"
    and eq: "FFin 60 = FFin (of_int (conf_threshold ex_self))"
    by (simp_all add: ex_self_def)
  have it: "the_item ex_page 2 =
      \<lparr>item_text = ascii ''edge'', item_x = 130, item_y = 20, item_width = 40, item_height = 15\<rparr>"
    by (simp add: the_item_def row_item_def col_get_def ex_page_def)
  have dr: "item_drawn ex_draw_ok (font_name ex_self) (200, 100) (the_item ex_page 2)"
    by (simp add: it item_drawn_def ex_draw_ok_def py_strip_def py_isspace_def ascii_def)
  have ic: "item_cmd (200, 100) (the_item ex_page 2) =
      \<lparr>cmd_x = 130, cmd_y = 65, cmd_text = ascii ''edge''\<rparr>"
    by (simp add: it item_cmd_def py_strip_def py_isspace_def utf8_ignore_def is_surrogate_def
        ascii_def)
  from low_confidence_rows_not_drawn[OF ex_page_layer] c1 c2 lt eq dr ic
  show ?thesis by (simp add: ex_page_layer)
qed

text \<open>
  C3. \<^verbatim>\<open>_create_text_layer\<close> passes to \<^verbatim>\<open>_write_text_block\<close>, in order, exactly the maximal
  runs of neighbouring rows with equal block id among the rows that pass the confidence
  filter; the last run is flushed after the final row, and runs are never merged across
  a run with another id. A row that the filter skips leaves the whole state as it was:
  it neither updates the current block id nor flushes.
\<close>

theorem blocks_are_contiguous_runs:
  assumes "text_layer_run fs df self reg lg d sz = (None, s)"
  shows "flushes s =
           map (map (the_item d)) (runs (the_block d) (kept_rows fs (conf_threshold self) d)) \<and>
         (\<forall>i cf s'. row_conf fs d i = Inr cf \<and> float_lt_int cf (conf_threshold self) \<longrightarrow>
            layer_step fs df self d sz i s' = (None, s'))"
  using text_layer_run_NoneD(1)[OF assms] by (simp add: layer_step_skip)

text \<open>
  The witness has the block ids 1, 1, 2, 1 on its passing rows, and a skipped row with id 7
  between them: three groups are flushed.
\<close>

theorem blocks_are_contiguous_runs_witness:
  "fst (text_layer_run ex_float_str ex_draw_ok ex_self [] [] ex_blocks (200, 100)) = None \<and>
   map (the_block ex_blocks) (kept_rows ex_float_str (conf_threshold ex_self) ex_blocks) =
     [1, 1, 2, 1] \<and>
   flushes (snd (text_layer_run ex_float_str ex_draw_ok ex_self [] [] ex_blocks (200, 100))) =
     [[the_item ex_blocks 0, the_item ex_blocks 1], [the_item ex_blocks 3],
      [the_item ex_blocks 4]]"
proof -
  have h: "text_layer_run ex_float_str ex_draw_ok ex_self [] [] ex_blocks (200, 100) =
      (None, snd (text_layer_run ex_float_str ex_draw_ok ex_self [] [] ex_blocks (200, 100)))"
    using ex_blocks_run by (metis prod.collapse)
  have b: "map (the_block ex_blocks) [0, 1, 3, 4] = [1, 1, 2, 1]"
    by (simp add: the_block_def col_get_def ex_blocks_def)
  from blocks_are_contiguous_runs[OF h] b show ?thesis
    by (simp add: ex_blocks_run ex_kept ex_runs)
qed

text \<open>
  C5, as amended. \<^verbatim>\<open>_write_text_block\<close> always returns. It draws, in order, the items
  whose text is not empty after \<^verbatim>\<open>strip()\<close> and for which \<^verbatim>\<open>drawString\<close> does not raise;
  for each item for which \<^verbatim>\<open>drawString\<close> raises it logs one warning and goes on to the
  next item. The test for an empty text comes before the sanitising, so a text that only
  the sanitising empties is still passed to \<^verbatim>\<open>drawString\<close>.
\<close>

theorem write_text_block_never_aborts:
  "cmds (fst (write_text_block df (cv, lg) blk sz)) =
     cmds cv @ map (item_cmd sz) (filter (item_drawn df (fst (cv_font cv)) sz) blk) \<and>
   snd (write_text_block df (cv, lg) blk sz) =
     lg @ concat (map (item_warning df (fst (cv_font cv)) sz) blk)"
  by (simp add: write_text_block_cmds write_text_block_log)

theorem write_text_block_never_aborts_witness:
  "cmds (fst (write_text_block ex_draw_bad (canvas_new (100, 100), []) ex_block_items (100, 100))) =
     [\<lparr>cmd_x = 1, cmd_y = 85, cmd_text = ascii ''Hi''\<rparr>,
      \<lparr>cmd_x = 4, cmd_y = 55, cmd_text = ascii ''yo''\<rparr>] \<and>
   snd (write_text_block ex_draw_bad (canvas_new (100, 100), []) ex_block_items (100, 100)) =
     [(WARNING, ''Failed to write text: cannot encode'')]"
  using write_text_block_never_aborts[of ex_draw_bad "canvas_new (100, 100)" "[]" ex_block_items
      "(100, 100)"]
  by (simp add: ex_block_items_def ex_draw_bad_def item_drawn_def item_cmd_def item_warning_def
      canvas_new_def py_strip_def py_isspace_def utf8_ignore_def is_surrogate_def ascii_def)

text \<open>
  As stated, C5 fails: a word that is one lone surrogate is not empty after \<^verbatim>\<open>strip()\<close>,
  is empty after the sanitising, and a draw command with the empty text is emitted.
\<close>

theorem sanitized_empty_word_is_drawn:
  "utf8_ignore (py_strip [0xD800]) = [] \<and>
   cmds (fst (write_text_block ex_draw_ok (canvas_new (100, 100), [])
      [\<lparr>item_text = [0xD800], item_x = 10, item_y = 20, item_width = 5, item_height = 15\<rparr>]
      (100, 100))) = [\<lparr>cmd_x = 10, cmd_y = 65, cmd_text = []\<rparr>]"
  by (simp add: write_item_def drawString_def ex_draw_ok_def canvas_new_def py_strip_def
        py_isspace_def utf8_ignore_def is_surrogate_def)

text \<open>
  C10. The confidence is coerced with \<^verbatim>\<open>float\<close> before the comparison. A row whose
  confidence is \<open>-1\<close>, as an int, a float or a string that \<^verbatim>\<open>float\<close> reads as \<open>-1\<close>, leaves
  the state as it was under every threshold that is not negative: nothing is drawn, the
  current block id is not updated and nothing is flushed. Replacing every confidence by
  the float that \<^verbatim>\<open>float\<close> gives for it changes nothing in the result.
\<close>

theorem skipped_and_string_confidences:
  "(0 \<le> conf_threshold self \<and> col_get ''conf'' (conf_col d) i = Inr cc \<and>
      (cc = ConfInt (- 1) \<or> cc = ConfFloat (FFin (- 1)) \<or>
       (\<exists>str. cc = ConfStr str \<and> fs str = Inr (FFin (- 1)))) \<longrightarrow>
      layer_step fs df self d sz i s = (None, s)) \<and>
   create_text_layer fs df self reg lg (coerced fs d) sz =
     create_text_layer fs df self reg lg d sz"
proof -
  have "layer_step fs df self d sz i s = (None, s)"
    if "0 \<le> conf_threshold self" "col_get ''conf'' (conf_col d) i = Inr cc"
      "cc = ConfInt (- 1) \<or> cc = ConfFloat (FFin (- 1)) \<or>
       (\<exists>str. cc = ConfStr str \<and> fs str = Inr (FFin (- 1)))"
  proof -
    from that(3) have "py_float fs cc = Inr (FFin (- 1))"
      by (auto simp: float_of_int_def)
    then have "row_conf fs d i = Inr (FFin (- 1))" using that(2) by (simp add: row_conf_def)
    moreover have "float_lt_int (FFin (- 1)) (conf_threshold self)" using that(1) by simp
    ultimately show ?thesis by (rule layer_step_skip)
  qed
  then show ?thesis by (simp add: create_text_layer_def text_layer_run_coerced)
qed

theorem skipped_and_string_confidences_witness:
  "col_get ''conf'' (conf_col ex_blocks) 2 = Inr (ConfInt (- 1)) \<and>
   layer_step ex_float_str ex_draw_ok ex_self ex_blocks (200, 100) 2
     \<lparr>ls_canvas = canvas_new (200, 100), ls_log = [], last_block_num = 1,
      text_block = [the_item ex_blocks 0], flushes = []\<rparr> =
     (None, \<lparr>ls_canvas = canvas_new (200, 100), ls_log = [], last_block_num = 1,
      text_block = [the_item ex_blocks 0], flushes = []\<rparr>) \<and>
   conf_col (coerced ex_float_str ex_blocks) =
     Some [ConfFloat (FFin 90), ConfFloat (FFin 91), ConfFloat (FFin (- 1)),
           ConfFloat (FFin 95), ConfFloat (FFin 93)] \<and>
   create_text_layer ex_float_str ex_draw_ok ex_self [] [] (coerced ex_float_str ex_blocks) (200, 100) =
     create_text_layer ex_float_str ex_draw_ok ex_self [] [] ex_blocks (200, 100)"
proof -
  have c: "col_get ''conf'' (conf_col ex_blocks) 2 = Inr (ConfInt (- 1))"
    by (simp add: col_get_def ex_blocks_def)
  have t: "0 \<le> conf_threshold ex_self" by (simp add: ex_self_def)
  have k: "conf_col (coerced ex_float_str ex_blocks) =
     Some [ConfFloat (FFin 90), ConfFloat (FFin 91), ConfFloat (FFin (- 1)),
           ConfFloat (FFin 95), ConfFloat (FFin 93)]"
    by (simp add: coerced_def coerce_conf_def ex_blocks_def ex_float_str_def float_of_int_def)
  from skipped_and_string_confidences[of ex_self ex_blocks 2 "ConfInt (- 1)" ex_float_str
      ex_draw_ok "(200, 100)" _ "[]" "[]"] c t k
  show ?thesis by simp
qed

text \<open>
  C4, as amended. \<^verbatim>\<open>process_pdf\<close> returns \<open>False\<close> with the message
  ``Error processing PDF: '' followed by the text of the exception, and logs it as an
  error, whenever a step raises. If the input path does not exist, the message names it
  and no file is touched. After any failure the files are as before and nothing was opened
  for writing, with one exception: when every page was processed, the output file was
  opened and \<^verbatim>\<open>writer.write\<close> then raised, the output path holds the truncated file. On
  success the output path was opened once, after all pages were processed, and holds the
  written document.
\<close>

theorem failure_before_write_leaves_no_file:
  assumes "process_pdf env self w inp out = ((ok, msg), w')"
  shows "(\<not> path_exists w inp \<longrightarrow>
            \<not> ok \<and> msg = ''Error processing PDF: Input file not found: '' @ inp \<and>
            files w' = files w \<and> opened_wb w' = opened_wb w) \<and>
         (\<not> ok \<longrightarrow>
            (\<exists>e. msg = ''Error processing PDF: '' @ str_exc e) \<and>
            logged w' \<noteq> [] \<and> last (logged w') = (ERROR, msg) \<and>
            ((files w' = files w \<and> opened_wb w' = opened_wb w) \<or>
             (\<exists>images pages wr e.
                convert_from_path env inp (dpi self) = Inr images \<and>
                pdf_reader env inp = Inr pages \<and>
                list_all2 (page_done env self (fonts w) pages) (enumerate_list images) wr \<and>
                write_error env wr = Some e \<and>
                files w' = (files w)(out \<mapsto> Truncated) \<and>
                opened_wb w' = opened_wb w @ [out]))) \<and>
         (ok \<longrightarrow>
            msg = ''Processing completed successfully'' \<and>
            opened_wb w' = opened_wb w @ [out] \<and>
            (\<exists>images pages wr.
                convert_from_path env inp (dpi self) = Inr images \<and>
                pdf_reader env inp = Inr pages \<and>
                list_all2 (page_done env self (fonts w) pages) (enumerate_list images) wr \<and>
                files w' = (files w)(out \<mapsto> PdfDoc wr)))"
proof -
  note d = process_pdf_NoneD[OF assms]
  have a: "\<not> path_exists w inp \<longrightarrow>
            \<not> ok \<and> msg = ''Error processing PDF: Input file not found: '' @ inp \<and>
            files w' = files w \<and> opened_wb w' = opened_wb w"
    using assms by (auto simp: process_pdf_def process_pdf_try_def Let_def log_to_def)
  have b: "\<not> ok \<longrightarrow>
            (\<exists>e. msg = ''Error processing PDF: '' @ str_exc e) \<and>
            logged w' \<noteq> [] \<and> last (logged w') = (ERROR, msg) \<and>
            ((files w' = files w \<and> opened_wb w' = opened_wb w) \<or>
             (\<exists>images pages wr e.
                convert_from_path env inp (dpi self) = Inr images \<and>
                pdf_reader env inp = Inr pages \<and>
                list_all2 (page_done env self (fonts w) pages) (enumerate_list images) wr \<and>
                write_error env wr = Some e \<and>
                files w' = (files w)(out \<mapsto> Truncated) \<and>
                opened_wb w' = opened_wb w @ [out]))"
  proof
    assume "\<not> ok"
    with d obtain e w1 where t: "process_pdf_try env self w inp out = (Some e, w1)"
      and m: "msg = ''Error processing PDF: '' @ str_exc e" and w': "w' = log_to ERROR msg w1"
      by auto
    from process_pdf_try_cases[OF t] m w' show
      "(\<exists>e. msg = ''Error processing PDF: '' @ str_exc e) \<and>
            logged w' \<noteq> [] \<and> last (logged w') = (ERROR, msg) \<and>
            ((files w' = files w \<and> opened_wb w' = opened_wb w) \<or>
             (\<exists>images pages wr e.
                convert_from_path env inp (dpi self) = Inr images \<and>
                pdf_reader env inp = Inr pages \<and>
                list_all2 (page_done env self (fonts w) pages) (enumerate_list images) wr \<and>
                write_error env wr = Some e \<and>
                files w' = (files w)(out \<mapsto> Truncated) \<and>
                opened_wb w' = opened_wb w @ [out]))"
      by (auto simp: log_to_def)
  qed
  have c: "ok \<longrightarrow>
            msg = ''Processing completed successfully'' \<and>
            opened_wb w' = opened_wb w @ [out] \<and>
            (\<exists>images pages wr.
                convert_from_path env inp (dpi self) = Inr images \<and>
                pdf_reader env inp = Inr pages \<and>
                list_all2 (page_done env self (fonts w) pages) (enumerate_list images) wr \<and>
                files w' = (files w)(out \<mapsto> PdfDoc wr))"
  proof
    assume ok
    with d have t: "process_pdf_try env self w inp out = (None, w')"
      and m: "msg = ''Processing completed successfully''" by auto
    from process_pdf_try_cases[OF t] m show
      "msg = ''Processing completed successfully'' \<and>
            opened_wb w' = opened_wb w @ [out] \<and>
            (\<exists>images pages wr.
                convert_from_path env inp (dpi self) = Inr images \<and>
                pdf_reader env inp = Inr pages \<and>
                list_all2 (page_done env self (fonts w) pages) (enumerate_list images) wr \<and>
                files w' = (files w)(out \<mapsto> PdfDoc wr))"
      by auto
  qed
  from a b c show ?thesis by blast
qed

text \<open>
  The witness is the specification's call with the missing input \<^verbatim>\<open>/no/such.pdf\<close> and the
  output \<^verbatim>\<open>out.pdf\<close>: a failure, and no file at \<^verbatim>\<open>out.pdf\<close>.
\<close>

theorem failure_before_write_leaves_no_file_witness:
  "\<not> path_exists ex_world ''/no/such.pdf'' \<and>
   fst (process_pdf ex_env ex_self ex_world ''/no/such.pdf'' ''out.pdf'') =
     (False, ''Error processing PDF: Input file not found: /no/such.pdf'') \<and>
   files (snd (process_pdf ex_env ex_self ex_world ''/no/such.pdf'' ''out.pdf'')) = files ex_world \<and>
   files ex_world ''out.pdf'' = None"
proof -
  have p: "\<not> path_exists ex_world ''/no/such.pdf''" by (simp add: path_exists_def ex_world_def)
  have f: "files ex_world ''out.pdf'' = None" by (simp add: ex_world_def)
  from failure_before_write_leaves_no_file[OF ex_missing_input] p f
  show ?thesis by (simp add: ex_missing_input)
qed

text \<open>
  As stated, C4 fails: when \<^verbatim>\<open>writer.write\<close> raises, \<^verbatim>\<open>process_pdf\<close> returns a failure and
  the output path, which did not exist, holds a file.
\<close>

theorem failed_write_leaves_partial_file:
  "fst (process_pdf ex_env_full_disk ex_self ex_world ''/in/scan.pdf'' ''/out/res.pdf'') =
     (False, ''Error processing PDF: No space left on device'') \<and>
   files ex_world ''/out/res.pdf'' = None \<and>
   files (snd (process_pdf ex_env_full_disk ex_self ex_world ''/in/scan.pdf'' ''/out/res.pdf''))
     ''/out/res.pdf'' = Some Truncated"
  by (simp add: ex2_defs ex_defs upt_rec)

text \<open>
  C7. When \<^verbatim>\<open>process_pdf\<close> succeeds, and the rasteriser has given one image for each page
  of the input, the written document has as many pages as the input, and its page \<open>i\<close> is
  page \<open>i\<close> of the input merged with the text layer made from the recognition output of
  image \<open>i\<close>. The commands of that layer are those of the rows of the output; a page with
  no drawable row gets a layer with no command, and is in the document at its index all
  the same.
\<close>

theorem output_pages_follow_input:
  assumes "process_pdf env self w inp out = ((True, msg), w')"
    and "convert_from_path env inp (dpi self) = Inr images"
    and "pdf_reader env inp = Inr pages"
    and "length images = length pages"
  shows "\<exists>outp. files w' out = Some (PdfDoc outp) \<and> length outp = length pages \<and>
           (\<forall>i<length pages. \<exists>d layer.
              image_to_data env (images ! i) = Inr d \<and>
              fst (create_text_layer (float_str env) (draw_error env) self (fonts w) [] d
                     (image_size env (images ! i))) = Inr layer \<and>
              merge_page env (pages ! i) layer = Inr (outp ! i) \<and>
              cmds layer =
                concat (map (row_cmds (float_str env) (draw_error env) self d
                               (image_size env (images ! i))) [0..<n_rows d]) \<and>
              ((\<forall>j<n_rows d. row_cmds (float_str env) (draw_error env) self d
                               (image_size env (images ! i)) j = []) \<longrightarrow> cmds layer = []))"
proof -
  from process_pdf_NoneD[OF assms(1)]
  have t: "process_pdf_try env self w inp out = (None, w')" by simp
  from process_pdf_try_cases[OF t] assms(2,3) obtain wr where
    la: "list_all2 (page_done env self (fonts w) pages) (enumerate_list images) wr"
    and f: "files w' = (files w)(out \<mapsto> PdfDoc wr)"
    by auto
  from la have len: "length wr = length images"
    by (simp add: list_all2_lengthD[symmetric] length_enumerate_list)
  have "\<exists>d layer.
              image_to_data env (images ! i) = Inr d \<and>
              fst (create_text_layer (float_str env) (draw_error env) self (fonts w) [] d
                     (image_size env (images ! i))) = Inr layer \<and>
              merge_page env (pages ! i) layer = Inr (wr ! i) \<and>
              cmds layer =
                concat (map (row_cmds (float_str env) (draw_error env) self d
                               (image_size env (images ! i))) [0..<n_rows d]) \<and>
              ((\<forall>j<n_rows d. row_cmds (float_str env) (draw_error env) self d
                               (image_size env (images ! i)) j = []) \<longrightarrow> cmds layer = [])"
    if i: "i < length pages" for i
  proof -
    from i assms(4) have ii: "i < length images" by simp
    from la ii have "page_done env self (fonts w) pages (enumerate_list images ! i) (wr ! i)"
      by (simp add: list_all2_conv_all_nth length_enumerate_list)
    then have "page_done env self (fonts w) pages (i, images ! i) (wr ! i)"
      using ii by (simp add: enumerate_list_nth)
    from page_doneD[OF this] obtain d layer where
      d: "image_to_data env (images ! i) = Inr d" and
      l: "fst (create_text_layer (float_str env) (draw_error env) self (fonts w) [] d
                     (image_size env (images ! i))) = Inr layer" and
      m: "merge_page env (pages ! i) layer = Inr (wr ! i)"
      by blast
    note c = create_text_layer_cmds[OF l]
    have "(\<forall>j<n_rows d. row_cmds (float_str env) (draw_error env) self d
                (image_size env (images ! i)) j = []) \<longrightarrow> cmds layer = []"
      unfolding c by simp
    with d l m c show ?thesis by blast
  qed
  with f len assms(4) show ?thesis by auto
qed

text \<open>The witness is a scan of two pages, the second blank.\<close>

theorem output_pages_follow_input_witness:
  "fst (process_pdf ex_env ex_self ex_world ''/in/scan.pdf'' ''/out/res.pdf'') =
     (True, ''Processing completed successfully'') \<and>
   convert_from_path ex_env ''/in/scan.pdf'' (dpi ex_self) = Inr [0, 1] \<and>
   pdf_reader ex_env ''/in/scan.pdf'' = Inr [(0, []), (1, [])] \<and>
   files (snd (process_pdf ex_env ex_self ex_world ''/in/scan.pdf'' ''/out/res.pdf''))
       ''/out/res.pdf'' =
     Some (PdfDoc [(0, [\<lparr>cmd_x = 10, cmd_y = 65, cmd_text = ascii ''Hello''\<rparr>,
                        \<lparr>cmd_x = 130, cmd_y = 65, cmd_text = ascii ''edge''\<rparr>]),
                   (1, [])])"
proof -
  have c: "convert_from_path ex_env ''/in/scan.pdf'' (dpi ex_self) = Inr [0, 1]"
    and r: "pdf_reader ex_env ''/in/scan.pdf'' = Inr [(0, []), (1, [])]"
    by (simp_all add: ex_env_def)
  have l: "length [0::nat, 1] = length [(0::nat, []::draw_cmd list), (1, [])]" by simp
  from output_pages_follow_input[OF ex_two_pages c r l] c r
  show ?thesis by (simp add: ex_two_pages)
qed

text \<open>
  C9, which the code breaks. For an output path with no directory part, such as
  \<^verbatim>\<open>out.pdf\<close>, \<^verbatim>\<open>os.path.dirname\<close> gives the empty string and \<^verbatim>\<open>os.makedirs\<close> raises for it:
  although the input exists, \<^verbatim>\<open>process_pdf\<close> returns a failure and processes nothing.
\<close>

theorem bare_output_name_fails:
  "path_exists w inp \<and> dirname out = [] \<longrightarrow>
     fst (process_pdf env self w inp out) =
       (False, ''Error processing PDF: [Errno 2] No such file or directory: '' @ [CHR 0x27, CHR 0x27]) \<and>
     files (snd (process_pdf env self w inp out)) = files w"
  by (simp add: process_pdf_def process_pdf_try_def makedirs_def Let_def log_to_def)

theorem bare_output_name_fails_witness:
  "path_exists ex_world ''/in/scan.pdf'' \<and> dirname ''out.pdf'' = [] \<and>
   fst (process_pdf ex_env ex_self ex_world ''/in/scan.pdf'' ''out.pdf'') =
     (False, ''Error processing PDF: [Errno 2] No such file or directory: '' @ [CHR 0x27, CHR 0x27]) \<and>
   files (snd (process_pdf ex_env ex_self ex_world ''/in/scan.pdf'' ''out.pdf'')) ''out.pdf'' = None"
proof -
  have p: "path_exists ex_world ''/in/scan.pdf''" by (simp add: path_exists_def ex_world_def)
  have d: "dirname ''out.pdf'' = []" by (simp add: dirname_def)
  have f: "files ex_world ''out.pdf'' = None" by (simp add: ex_world_def)
  from bare_output_name_fails[of ex_world "''/in/scan.pdf''" "''out.pdf''" ex_env ex_self] p d f
  show ?thesis by simp
qed

text \<open>
  C8. If the font file is absent or cannot be loaded, \<^verbatim>\<open>__init__\<close> still returns a
  processor: its font is Helvetica and one warning is logged. Whatever the outcome of the
  registration, \<^verbatim>\<open>setFont\<close> accepts the processor's font, so that \<^verbatim>\<open>_create_text_layer\<close>
  returns a page exactly when the lookups in the recognition output succeed: the font
  never makes it raise.
\<close>

theorem font_failure_is_not_fatal:
  "(\<not> path_exists w (font_file env) \<or> ttfont_load env ''0xProto-Regular'' (font_file env) \<noteq> None \<longrightarrow>
      font_name (fst (PdfOcrProcessor env tp w)) = ''Helvetica'' \<and>
      (\<exists>e. logged (snd (PdfOcrProcessor env tp w)) =
         logged w @ [(WARNING, ''Font registration failed: '' @ str_exc e @ ''. Using Helvetica.'')])) \<and>
   conf_threshold (fst (PdfOcrProcessor env tp w)) = 60 \<and>
   (\<exists>c. setFont (fonts (snd (PdfOcrProcessor env tp w))) (canvas_new sz)
           (font_name (fst (PdfOcrProcessor env tp w))) 8 = Inr c) \<and>
   ((\<exists>c. fst (create_text_layer fs df (fst (PdfOcrProcessor env tp w))
                 (fonts (snd (PdfOcrProcessor env tp w))) lg d sz) = Inr c) \<longleftrightarrow>
      text_col d \<noteq> None \<and> (\<forall>i<n_rows d. row_ok fs 60 d i))"
proof -
  let ?w1 = "case tp of None \<Rightarrow> w | Some p \<Rightarrow> if p \<noteq> [] then w\<lparr>tesseract_cmd := p\<rparr> else w"
  have P: "PdfOcrProcessor env tp w =
      (\<lparr>font_name = fst (setup_font env ?w1), conf_threshold = 60, dpi = 300\<rparr>, snd (setup_font env ?w1))"
    by (simp add: PdfOcrProcessor_def Let_def)
  have lg: "logged ?w1 = logged w" by (simp split: option.splits)
  have a: "\<not> path_exists w (font_file env) \<or> ttfont_load env ''0xProto-Regular'' (font_file env) \<noteq> None \<longrightarrow>
      font_name (fst (PdfOcrProcessor env tp w)) = ''Helvetica'' \<and>
      (\<exists>e. logged (snd (PdfOcrProcessor env tp w)) =
         logged w @ [(WARNING, ''Font registration failed: '' @ str_exc e @ ''. Using Helvetica.'')])"
    using setup_font_fallback[of ?w1 env] by (simp add: P init_path_exists lg)
  have k: "font_known (fonts (snd (PdfOcrProcessor env tp w))) (font_name (fst (PdfOcrProcessor env tp w)))"
    using setup_font_known[of env ?w1] by (simp add: P)
  then have b: "\<exists>c. setFont (fonts (snd (PdfOcrProcessor env tp w))) (canvas_new sz)
           (font_name (fst (PdfOcrProcessor env tp w))) 8 = Inr c"
    by (auto simp: setFont_def font_known_def)
  have t: "conf_threshold (fst (PdfOcrProcessor env tp w)) = 60" by (simp add: P)
  have c: "(\<exists>c. fst (create_text_layer fs df (fst (PdfOcrProcessor env tp w))
                 (fonts (snd (PdfOcrProcessor env tp w))) lg d sz) = Inr c) \<longleftrightarrow>
      text_col d \<noteq> None \<and> (\<forall>i<n_rows d. row_ok fs 60 d i)"
    using k t by (simp add: create_text_layer_ok_iff)
  from a b c t show ?thesis by blast
qed

text \<open>
  The witness has no font file: the processor falls back to Helvetica, and the scan of two
  pages is processed with success.
\<close>

theorem font_failure_is_not_fatal_witness:
  "\<not> path_exists ex_world (font_file ex_env) \<and>
   font_name (fst (PdfOcrProcessor ex_env (Some ''/opt/homebrew/bin/tesseract'') ex_world)) =
     ''Helvetica'' \<and>
   logged (snd (PdfOcrProcessor ex_env (Some ''/opt/homebrew/bin/tesseract'') ex_world)) =
     [(WARNING, ''Font registration failed: Font file not found: /app/fonts/0xProto-Regular.ttf. Using Helvetica.'')] \<and>
   fst (process_pdf ex_env
          (fst (PdfOcrProcessor ex_env (Some ''/opt/homebrew/bin/tesseract'') ex_world))
          (snd (PdfOcrProcessor ex_env (Some ''/opt/homebrew/bin/tesseract'') ex_world))
          ''/in/scan.pdf'' ''/out/res.pdf'') =
     (True, ''Processing completed successfully'')"
proof -
  have p: "\<not> path_exists ex_world (font_file ex_env)"
    by (simp add: path_exists_def font_file_def ex_world_def ex_env_def)
  have r: "fst (process_pdf ex_env ex_self
          (ex_world\<lparr>logged := [(WARNING, ''Font registration failed: Font file not found: /app/fonts/0xProto-Regular.ttf. Using Helvetica.'')],
               tesseract_cmd := ''/opt/homebrew/bin/tesseract''\<rparr>)
          ''/in/scan.pdf'' ''/out/res.pdf'') = (True, ''Processing completed successfully'')"
    by (simp add: ex2_defs ex_defs upt_rec)
  from font_failure_is_not_fatal[of ex_world ex_env "Some ''/opt/homebrew/bin/tesseract''"] p r
  show ?thesis by (simp add: ex_init)
qed

text \<open>
  C6, as amended. \<^verbatim>\<open>_create_text_layer\<close> does not validate the recognition output; a
  lookup fails when the loop reaches it. It returns a page exactly when the \<^verbatim>\<open>text\<close>
  column is there and, for every row below its length, the confidence is there and
  \<^verbatim>\<open>float\<close> accepts it and, if the row passes the filter, its block id, text, left, top,
  width and height are there; otherwise it raises (KeyError for a missing \<^verbatim>\<open>text\<close>
  column). A page for which it raises aborts the run: \<^verbatim>\<open>process_pdf\<close> succeeds only if the
  lookups succeed for the output of every image.
\<close>

theorem lookups_fail_lazily:
  "((\<exists>c. fst (create_text_layer fs df self reg lg d sz) = Inr c) \<longleftrightarrow>
      font_known reg (font_name self) \<and> text_col d \<noteq> None \<and>
      (\<forall>i<n_rows d. row_ok fs (conf_threshold self) d i)) \<and>
   (font_known reg (font_name self) \<and> text_col d = None \<longrightarrow>
      fst (create_text_layer fs df self reg lg d sz) = Inl (key_error ''text'')) \<and>
   (fst (fst (process_pdf env self w inp out)) \<and>
    convert_from_path env inp (dpi self) = Inr images \<and> img \<in> set images \<longrightarrow>
      (\<exists>d'. image_to_data env img = Inr d' \<and> text_col d' \<noteq> None \<and>
         (\<forall>i<n_rows d'. row_ok (float_str env) (conf_threshold self) d' i)))"
  using create_text_layer_ok_iff[of fs df self reg lg d sz]
    create_text_layer_no_text[of reg self d fs df lg sz]
    process_pdf_pages_ok[of env self w inp out images img]
  by blast

text \<open>
  The witness: a \<^verbatim>\<open>conf\<close> column shorter than the \<^verbatim>\<open>text\<close> column raises IndexError and the
  run fails; the well-formed page passes.
\<close>

theorem lookups_fail_lazily_witness:
  "\<not> row_ok ex_float_str (conf_threshold ex_self) ex_short_conf 1 \<and>
   fst (create_text_layer ex_float_str ex_draw_ok ex_self [] [] ex_short_conf (200, 100)) =
     Inl index_error \<and>
   fst (process_pdf ex_env_short ex_self ex_world ''/in/scan.pdf'' ''/out/res.pdf'') =
     (False, ''Error processing PDF: list index out of range'') \<and>
   n_rows ex_page = 3 \<and>
   row_ok ex_float_str (conf_threshold ex_self) ex_page 0 \<and>
   row_ok ex_float_str (conf_threshold ex_self) ex_page 1 \<and>
   row_ok ex_float_str (conf_threshold ex_self) ex_page 2 \<and>
   (\<exists>c. fst (create_text_layer ex_float_str ex_draw_ok ex_self [] [] ex_page (200, 100)) = Inr c)"
proof -
  have a: "\<not> row_ok ex_float_str (conf_threshold ex_self) ex_short_conf 1"
    by (simp add: row_ok_def row_conf_def col_get_def ex_short_conf_def)
  have b: "fst (create_text_layer ex_float_str ex_draw_ok ex_self [] [] ex_short_conf (200, 100)) =
     Inl index_error"
    by (simp add: ex_defs ex_short_conf_def upt_rec)
  have c: "fst (process_pdf ex_env_short ex_self ex_world ''/in/scan.pdf'' ''/out/res.pdf'') =
     (False, ''Error processing PDF: list index out of range'')"
    by (simp add: ex2_defs ex_defs ex_env_short_def ex_short_conf_def index_error_def upt_rec)
  have k: "font_known [] (font_name ex_self)"
    by (simp add: font_known_def standardFonts_def ex_self_def)
  have t: "text_col ex_page \<noteq> None" by (simp add: ex_page_def)
  have e: "\<exists>c. fst (create_text_layer ex_float_str ex_draw_ok ex_self [] [] ex_page (200, 100)) = Inr c"
    by (simp add: ex_page_layer)
  from lookups_fail_lazily[of ex_float_str ex_draw_ok ex_self "[]" "[]" ex_page "(200, 100)",
      THEN conjunct1] e k t
  have r: "\<forall>i<n_rows ex_page. row_ok ex_float_str (conf_threshold ex_self) ex_page i" by blast
  have n: "n_rows ex_page = 3" by (simp add: n_rows_def ex_page_def)
  from r n have "row_ok ex_float_str (conf_threshold ex_self) ex_page 0"
    "row_ok ex_float_str (conf_threshold ex_self) ex_page 1"
    "row_ok ex_float_str (conf_threshold ex_self) ex_page 2"
    by simp_all
  with a b c e n show ?thesis by blast
qed

text \<open>
  As stated, C6 fails: an output with every column but \<^verbatim>\<open>text\<close> missing, and an output
  whose columns have different lengths and whose \<^verbatim>\<open>block_num\<close>, \<^verbatim>\<open>width\<close> and \<^verbatim>\<open>height\<close>
  columns are missing, both give a page and no error.
\<close>

theorem unvalidated_output_is_accepted:
  "fst (create_text_layer ex_float_str ex_draw_ok ex_self [] [] ex_no_columns (200, 100)) =
     Inr \<lparr>pagesize = (200, 100), cv_font = (''Helvetica'', 8), cv_fill = (0, 0, 0, 0), cmds = []\<rparr> \<and>
   fst (create_text_layer ex_float_str ex_draw_ok ex_self [] [] ex_ragged (200, 100)) =
     Inr \<lparr>pagesize = (200, 100), cv_font = (''Helvetica'', 8), cv_fill = (0, 0, 0, 0), cmds = []\<rparr>"
  by (simp add: ex_defs ex_no_columns_def ex_ragged_def upt_rec)

end
